theory Spec2Isabelle
  imports Complex_Main
begin

section \<open>JavaScript numbers and arrays\<close>

text \<open>
  The simulator is JavaScript: every number is an IEEE double and no arithmetic operation
  raises. A number is modelled as a finite value, one of the two infinities, or NaN.
  The operations \<open>+\<close>, \<open>-\<close>, \<open>*\<close> and \<open>/\<close> give the exact real result on finite values;
  the rounding of a result to the nearest double is the separate function \<open>rounded\<close>
  below. The sign of zero is not modelled (a zero divisor is read as positive zero).
  Division by zero yields an infinity or NaN, as in the program, and never the HOL value
  of \<open>x / 0\<close>.
\<close>

datatype jsnum = Fin real | PInf | NInf | NaN

instantiation jsnum :: "{plus, minus, uminus, times, divide, ord}"
begin

fun plus_jsnum :: "jsnum \<Rightarrow> jsnum \<Rightarrow> jsnum" where
  "Fin a + Fin b = Fin (a + b)"
| "Fin a + PInf = PInf"
| "Fin a + NInf = NInf"
| "PInf + Fin b = PInf"
| "PInf + PInf = PInf"
| "PInf + NInf = NaN"
| "NInf + Fin b = NInf"
| "NInf + PInf = NaN"
| "NInf + NInf = NInf"
| "NaN + y = NaN"
| "x + NaN = NaN"

fun uminus_jsnum :: "jsnum \<Rightarrow> jsnum" where
  "- Fin a = Fin (- a)"
| "- PInf = NInf"
| "- NInf = PInf"
| "- NaN = NaN"

definition minus_jsnum_def: "x - y = (x :: jsnum) + (- y)"

fun times_jsnum :: "jsnum \<Rightarrow> jsnum \<Rightarrow> jsnum" where
  "Fin a * Fin b = Fin (a * b)"
| "Fin a * PInf = (if a = 0 then NaN else if 0 < a then PInf else NInf)"
| "Fin a * NInf = (if a = 0 then NaN else if 0 < a then NInf else PInf)"
| "PInf * Fin b = (if b = 0 then NaN else if 0 < b then PInf else NInf)"
| "NInf * Fin b = (if b = 0 then NaN else if 0 < b then NInf else PInf)"
| "PInf * PInf = PInf"
| "PInf * NInf = NInf"
| "NInf * PInf = NInf"
| "NInf * NInf = PInf"
| "NaN * y = NaN"
| "x * NaN = NaN"

fun divide_jsnum :: "jsnum \<Rightarrow> jsnum \<Rightarrow> jsnum" where
  "divide (Fin a) (Fin b) =
     (if b \<noteq> 0 then Fin (a / b) else if a = 0 then NaN else if 0 < a then PInf else NInf)"
| "divide (Fin a) PInf = Fin 0"
| "divide (Fin a) NInf = Fin 0"
| "divide PInf (Fin b) = (if 0 \<le> b then PInf else NInf)"
| "divide NInf (Fin b) = (if 0 \<le> b then NInf else PInf)"
| "divide PInf PInf = NaN"
| "divide PInf NInf = NaN"
| "divide NInf PInf = NaN"
| "divide NInf NInf = NaN"
| "divide NaN y = NaN"
| "divide x NaN = NaN"

fun less_jsnum :: "jsnum \<Rightarrow> jsnum \<Rightarrow> bool" where
  "Fin a < Fin b \<longleftrightarrow> a < b"
| "Fin a < PInf \<longleftrightarrow> True"
| "NInf < Fin b \<longleftrightarrow> True"
| "NInf < PInf \<longleftrightarrow> True"
| "(x :: jsnum) < y \<longleftrightarrow> False"

definition less_eq_jsnum_def: "x \<le> y \<longleftrightarrow> (x :: jsnum) < y \<or> (x = y \<and> x \<noteq> NaN)"

instance ..

end

instantiation jsnum :: inverse
begin

definition inverse_jsnum_def: "inverse x = divide (Fin 1) (x :: jsnum)"

instance ..

end

subsection \<open>Rounding to a double\<close>

text \<open>
  The double nearest to a real, ties going to the even significand: a significand of 53
  bits, the exponent of the real but not less than \<open>-1022\<close> (below it the doubles are
  equally spaced by \<open>2^-1074\<close>), and an infinity when the rounded magnitude reaches
  \<open>2^1024\<close>.

  \<open>rounded\<close> is applied to the results that decide how often a loop runs and to the time
  stamps: the quotient \<open>simTime / dt\<close> of \<open>runSimulation\<close> and
  \<open>simulationTime / timeStep\<close> of \<open>simulatePID\<close>, the products \<open>i * dt\<close> and the sums
  \<open>time += timeStep\<close>. Every other finite result is the exact real, which the double of the
  program approximates: the values of the signals in the model are those of the program
  up to the rounding error of each operation, and as long as no finite result of the
  program overflows.
\<close>

definition round_even :: "real \<Rightarrow> int" where
  "round_even x =
    (let n = \<lfloor>x\<rfloor> in
     if x - of_int n < 1 / 2 then n
     else if 1 / 2 < x - of_int n then n + 1
     else if even n then n else n + 1)"

definition double_round :: "real \<Rightarrow> jsnum" where
  "double_round x =
    (if x = 0 then Fin 0
     else
       let e = max \<lfloor>log 2 \<bar>x\<bar>\<rfloor> (- 1022);
           ulp = 2 powr (of_int e - 52);
           y = of_int (round_even (x / ulp)) * ulp
       in if 2 ^ 1024 \<le> \<bar>y\<bar> then (if 0 < x then PInf else NInf) else Fin y)"

fun rounded :: "jsnum \<Rightarrow> jsnum" where
  "rounded (Fin a) = double_round a"
| "rounded x = x"

text \<open>\<open>isNaN\<close>, \<open>isFinite\<close>, \<open>Math.floor\<close>, \<open>Math.sin\<close>, \<open>Math.sign\<close> and
  \<open>Math.min\<close> on numbers.\<close>

fun isNaN :: "jsnum \<Rightarrow> bool" where
  "isNaN NaN = True"
| "isNaN x = False"

fun isFinite :: "jsnum \<Rightarrow> bool" where
  "isFinite (Fin a) = True"
| "isFinite x = False"

fun Math_floor :: "jsnum \<Rightarrow> jsnum" where
  "Math_floor (Fin a) = Fin (of_int \<lfloor>a\<rfloor>)"
| "Math_floor x = x"

fun Math_sin :: "jsnum \<Rightarrow> jsnum" where
  "Math_sin (Fin a) = Fin (sin a)"
| "Math_sin x = NaN"

fun Math_sign :: "jsnum \<Rightarrow> jsnum" where
  "Math_sign (Fin a) = Fin (sgn a)"
| "Math_sign PInf = Fin 1"
| "Math_sign NInf = Fin (- 1)"
| "Math_sign NaN = NaN"

definition Math_min :: "jsnum \<Rightarrow> jsnum \<Rightarrow> jsnum" where
  "Math_min x y = (if isNaN x \<or> isNaN y then NaN else if y < x then y else x)"

text \<open>\<open>Math.max(...xs)\<close>: the maximum of the arguments, \<open>-Infinity\<close> for none, NaN as
  soon as one argument is NaN.\<close>

definition Math_max2 :: "jsnum \<Rightarrow> jsnum \<Rightarrow> jsnum" where
  "Math_max2 x y = (if isNaN x \<or> isNaN y then NaN else if x < y then y else x)"

definition Math_max :: "jsnum list \<Rightarrow> jsnum" where
  "Math_max xs = foldl Math_max2 NInf xs"

text \<open>
  An array is a list. Reading an index that is not an element of the array gives
  \<open>undefined\<close>; every such read in this program is an operand of arithmetic, of a
  comparison, of \<open>=== 0\<close> or of \<open>||\<close>, where \<open>undefined\<close> behaves as NaN does, so the
  read is modelled as returning NaN. The index is an integer, since the program also reads
  index \<open>-1\<close>.
\<close>

definition js_index :: "jsnum list \<Rightarrow> int \<Rightarrow> jsnum" where
  "js_index xs i = (if 0 \<le> i \<and> i < int (length xs) then xs ! nat i else NaN)"

text \<open>\<open>a || b\<close> on numbers: \<open>a\<close> unless it is falsy (zero, NaN or \<open>undefined\<close>).\<close>

definition js_or :: "jsnum \<Rightarrow> jsnum \<Rightarrow> jsnum" where
  "js_or a b = (if a = Fin 0 \<or> isNaN a then b else a)"

text \<open>
  How a run ends without a result: an exception (\<open>Error\<close> with its message, RangeError,
  TypeError), or an early \<open>return\<close> after the input check of \<open>runSimulation\<close>
  (\<open>InvalidCoefficients\<close>) or of \<open>simulatePID\<close> (\<open>InvalidInputs\<close>).
\<close>

datatype failure =
    Error string
  | RangeError string
  | TypeError string
  | InvalidCoefficients
  | InvalidInputs

section \<open>PlantModel: transfer function to state space\<close>

record state_space =
  ssA :: "jsnum list list"
  ssB :: "jsnum list"
  ssC :: "jsnum list"
  ssD :: jsnum

text \<open>
  The two loops that fill the companion matrix. Every write is inside the \<open>n\<close> by \<open>n\<close>
  array (\<open>i + 1 \<le> n - 1\<close> in the first loop), so no write extends an array.
  \<open>row\<close> is the index expression of the denominator read in the second loop.
\<close>

definition fill_superdiagonal :: "nat \<Rightarrow> jsnum list list \<Rightarrow> jsnum list list" where
  "fill_superdiagonal n A0 = foldl (\<lambda>A i. A[i := (A ! i)[i + 1 := Fin 1]]) A0 [0 ..< n - 1]"

definition fill_bottom_row ::
    "nat \<Rightarrow> (nat \<Rightarrow> jsnum) \<Rightarrow> jsnum list list \<Rightarrow> jsnum list list" where
  "fill_bottom_row n row A0 = foldl (\<lambda>A i. A[n - 1 := (A ! (n - 1))[i := row i]]) A0 [0 ..< n]"

text \<open>\<open>B[n-1] = 1\<close>: for \<open>n = 0\<close> the index is \<open>-1\<close>, which stores a property on the empty
  array and leaves its elements as they are.\<close>

definition unit_last :: "nat \<Rightarrow> jsnum list" where
  "unit_last n = (if n = 0 then [] else (replicate n (Fin 0))[n - 1 := Fin 1])"

subsection \<open>Pagina Corregida - copia\<close>

definition tfToStateSpace :: "jsnum list \<Rightarrow> jsnum list \<Rightarrow> failure + state_space" where
  "tfToStateSpace num0 den0 =
    (let den_norm = js_index den0 0 in
     if den_norm = Fin 0
     then Inl (Error ''Denominator highest order coefficient cannot be zero.'')
     else
       let den = map (\<lambda>d. d / den_norm) den0;
           num = map (\<lambda>n. n / den_norm) num0;
           n = int (length den) - 1
       in
       if n < 0 then Inl (Error ''Invalid denominator.'')
       else if n - int (length num) + 1 < 0 then Inl (RangeError ''Invalid array length'')
       else
         let num_padded = replicate (nat (n - int (length num) + 1)) (Fin 0) @ num;
             A0 = replicate (nat n) (replicate (nat n) (Fin 0));
             A1 = fill_superdiagonal (nat n) A0;
             A = fill_bottom_row (nat n) (\<lambda>i. - js_index den (n - int i)) A1;
             B = unit_last (nat n);
             C = drop 1 num_padded;
             D = js_index num_padded 0
         in Inr \<lparr>ssA = A, ssB = B, ssC = C, ssD = D\<rparr>)"

subsection \<open>Pagina Profesor\<close>

text \<open>The same construction without the two checks; \<open>den.shift()\<close> removes the leading
  coefficient (and does nothing on an empty array). \<open>C\<close> is written by two loops, the
  second overwriting every element written by the first.\<close>

definition tfToStateSpace_prof :: "jsnum list \<Rightarrow> jsnum list \<Rightarrow> failure + state_space" where
  "tfToStateSpace_prof num0 den0 =
    (let den_norm = js_index den0 0;
         den = tl (map (\<lambda>d. d / den_norm) den0);
         num = map (\<lambda>n. n / den_norm) num0;
         n = length den
     in
     if int n - int (length num) + 1 < 0 then Inl (RangeError ''Invalid array length'')
     else
       let num_padded = replicate (nat (int n - int (length num) + 1)) (Fin 0) @ num;
           A0 = replicate n (replicate n (Fin 0));
           A1 = fill_superdiagonal n A0;
           A = fill_bottom_row n (\<lambda>i. - js_index den (int n - 1 - int i)) A1;
           B = unit_last n;
           d_c = js_index num_padded 0;
           C1 = foldl (\<lambda>C i. C[i := js_index num_padded (int i + 1)
                   - d_c * (js_index (A ! (n - 1)) (int i) / (- js_index den (int n - 1 - int i))
                            * js_index den (int i))])
                  (replicate n (Fin 0)) [0 ..< n];
           D = d_c;
           C = foldl (\<lambda>C i. C[i := js_index num_padded (int (length num_padded) - 1 - int i)
                   - js_index num_padded 0 * js_index den (int n - 1 - int i)])
                  C1 [0 ..< n]
       in Inr \<lparr>ssA = A, ssB = B, ssC = C, ssD = D\<rparr>)"

section \<open>Integrator: one Runge-Kutta step\<close>

text \<open>
  \<open>rungeKutta\<close> is the same text in Pagina Corregida - copia and in Pagina Profesor.
  \<open>f\<close> reads \<open>A[i][j]\<close> for all \<open>i, j < n\<close> with \<open>n = x.length\<close>: when \<open>A\<close> has fewer
  than \<open>n\<close> rows, \<open>A[i]\<close> is \<open>undefined\<close> and the read raises a TypeError; a missing
  element of a row, of \<open>B\<close> or of a vector reads as NaN. \<open>mapi\<close> is \<open>Array.map\<close> with the
  element and its index; all arrays built here are new, the arguments are not written.
\<close>

definition mapi :: "('a \<Rightarrow> nat \<Rightarrow> 'b) \<Rightarrow> 'a list \<Rightarrow> 'b list" where
  "mapi g xs = map (\<lambda>(v, i). g v i) (zip xs [0 ..< length xs])"

definition f_deriv ::
    "jsnum list list \<Rightarrow> jsnum list \<Rightarrow> jsnum \<Rightarrow> nat \<Rightarrow> jsnum list \<Rightarrow> jsnum list" where
  "f_deriv A B u n x_vec =
     map (\<lambda>i. foldl (\<lambda>res j. res + js_index (A ! i) (int j) * js_index x_vec (int j))
                 (Fin 0) [0 ..< n]
              + js_index B (int i) * u)
       [0 ..< n]"

definition rungeKutta ::
    "jsnum list list \<Rightarrow> jsnum list \<Rightarrow> jsnum list \<Rightarrow> jsnum \<Rightarrow> jsnum \<Rightarrow> failure + jsnum list" where
  "rungeKutta A B x u dt =
    (let n = length x in
     if length A < n then Inl (TypeError ''Cannot read properties of undefined'')
     else
       let f = f_deriv A B u n;
           k1 = map (\<lambda>v. v * dt) (f x);
           k2 = map (\<lambda>v. v * dt) (f (mapi (\<lambda>v i. v + Fin 0.5 * js_index k1 (int i)) x));
           k3 = map (\<lambda>v. v * dt) (f (mapi (\<lambda>v i. v + Fin 0.5 * js_index k2 (int i)) x));
           k4 = map (\<lambda>v. v * dt) (f (mapi (\<lambda>v i. v + js_index k3 (int i)) x))
       in Inr (mapi (\<lambda>v i. v + (js_index k1 (int i) + Fin 2 * js_index k2 (int i)
                                 + Fin 2 * js_index k3 (int i) + js_index k4 (int i)) / Fin 6) x))"

text \<open>
  The update as the specification words it, over the reals: the derivative
  \<open>f(x) = A\<cdot>x + B\<cdot>u\<close>, four evaluations of it, and their weighted combination.
\<close>

definition spec_derivative :: "real list list \<Rightarrow> real list \<Rightarrow> real \<Rightarrow> real list \<Rightarrow> real list" where
  "spec_derivative A B u x =
     map (\<lambda>i. (\<Sum>j < length x. A ! i ! j * x ! j) + B ! i * u) [0 ..< length x]"

definition spec_axpy :: "real list \<Rightarrow> real \<Rightarrow> real list \<Rightarrow> real list" where
  "spec_axpy x c k = map (\<lambda>i. x ! i + c * k ! i) [0 ..< length x]"

definition spec_rk4 :: "real list list \<Rightarrow> real list \<Rightarrow> real list \<Rightarrow> real \<Rightarrow> real \<Rightarrow> real list" where
  "spec_rk4 A B x u dt =
    (let k1 = spec_derivative A B u x;
         k2 = spec_derivative A B u (spec_axpy x (dt / 2) k1);
         k3 = spec_derivative A B u (spec_axpy x (dt / 2) k2);
         k4 = spec_derivative A B u (spec_axpy x dt k3)
     in map (\<lambda>i. x ! i + dt / 6 * (k1 ! i + 2 * k2 ! i + 2 * k3 ! i + k4 ! i)) [0 ..< length x])"

section \<open>ReferenceGenerator\<close>

definition generateReference :: "jsnum \<Rightarrow> string \<Rightarrow> jsnum \<Rightarrow> jsnum \<Rightarrow> jsnum" where
  "generateReference t type amp freq =
    (if type = ''step'' then amp
     else if type = ''ramp'' then amp * t
     else if type = ''sine'' then amp * Math_sin (Fin 2 * Fin pi * freq * t)
     else if type = ''square'' then amp * Math_sign (Math_sin (Fin 2 * Fin pi * freq * t))
     else amp)"

text \<open>Pagina Profesor holds the ramp at its value for \<open>t = 1\<close>.\<close>

definition generateReference_prof :: "jsnum \<Rightarrow> string \<Rightarrow> jsnum \<Rightarrow> jsnum \<Rightarrow> jsnum" where
  "generateReference_prof t type amp freq =
    (if type = ''step'' then amp
     else if type = ''ramp'' then amp * Math_min (Fin 1) t
     else if type = ''sine'' then amp * Math_sin (Fin 2 * Fin pi * freq * t)
     else if type = ''square'' then amp * Math_sign (Math_sin (Fin 2 * Fin pi * freq * t))
     else amp)"

section \<open>SimulationEngine\<close>

text \<open>
  The engine reads its configuration from the page; the model starts from the values
  after \<open>parseFloat\<close> (a double, or NaN for text that is no number). The result is the
  \<open>simulationData\<close> object. The four result arrays are allocated with \<open>steps\<close> zeros
  and written at index \<open>i < steps\<close>. An array has at most \<open>2^32 - 1\<close> elements; memory
  is not limited otherwise. The model of a run ends where \<open>simulationData\<close> is assigned;
  plotting and the display of the metrics come after.
  The fields of the records carry a prefix (\<open>cfg_\<close>, \<open>sd_\<close>, \<open>st_\<close>, and \<open>in_\<close>, \<open>ps_\<close>
  for \<open>simulatePID\<close>), so that the source's names stay free for the variables of the
  functions.
\<close>

record sim_config =
  cfg_numerator :: "jsnum list"
  cfg_denominator :: "jsnum list"
  cfg_kp :: jsnum
  cfg_ki :: jsnum
  cfg_kd :: jsnum
  cfg_simTime :: jsnum
  cfg_dt :: jsnum
  cfg_controlType :: string
  cfg_amplitude :: jsnum
  cfg_frequency :: jsnum
  cfg_antiWindup :: string
  cfg_derivativeFilter :: string
  cfg_disturbance :: jsnum

record simulationData =
  sd_time :: "jsnum list"
  sd_reference :: "jsnum list"
  sd_output :: "jsnum list"
  sd_error :: "jsnum list"
  sd_control :: "jsnum list"

record sim_state =
  st_x :: "jsnum list"
  st_integral :: jsnum
  st_prevError :: jsnum
  st_filteredDerivative :: jsnum
  st_reference :: "jsnum list"
  st_output :: "jsnum list"
  st_error :: "jsnum list"
  st_control :: "jsnum list"

subsection \<open>Controller (Pagina Corregida - copia)\<close>

text \<open>
  The controller part of the loop body: from the current error and the controller's
  variables to the control value \<open>u\<close> and the new \<open>integral\<close> and \<open>filteredDerivative\<close>
  (\<open>prevError\<close> becomes the current error). \<open>anti_windup\<close> is the block under
  \<open>antiWindupType === 'clamping'\<close>, with its constants \<open>u_max = 5\<close> and \<open>u_min = -5\<close>.
\<close>

definition anti_windup :: "jsnum \<Rightarrow> jsnum \<Rightarrow> jsnum \<Rightarrow> jsnum \<times> jsnum" where
  "anti_windup ki u_unclamped integral =
    (let u = u_unclamped; u_max = Fin 5; u_min = Fin (- 5) in
     if u_max < u then
       (u_max, if u_max < u_unclamped then integral - (u_unclamped - u_max) / ki else integral)
     else if u < u_min then
       (u_min, if u_unclamped < u_min then integral - (u_unclamped - u_min) / ki else integral)
     else (u, integral))"

definition pid_control ::
    "sim_config \<Rightarrow> nat \<Rightarrow> jsnum \<Rightarrow> jsnum \<Rightarrow> jsnum \<Rightarrow> jsnum \<Rightarrow> jsnum \<times> jsnum \<times> jsnum" where
  "pid_control cfg i currentError integral0 prevError filteredDerivative0 =
    (let dt = cfg_dt cfg;
         integral = integral0 + currentError * dt;
         derivative = (if 0 < i then (currentError - prevError) / dt else Fin 0);
         filteredDerivative =
           (if cfg_derivativeFilter cfg = ''firstOrder''
            then let tau_d = Fin 0.05; alpha = dt / (tau_d + dt)
                 in alpha * derivative + (Fin 1 - alpha) * filteredDerivative0
            else filteredDerivative0);
         derivative = (if cfg_derivativeFilter cfg = ''firstOrder''
                       then filteredDerivative else derivative);
         u_unclamped = cfg_kp cfg * currentError + cfg_ki cfg * integral + cfg_kd cfg * derivative;
         (u, integral) = (if cfg_antiWindup cfg = ''clamping''
                          then anti_windup (cfg_ki cfg) u_unclamped integral
                          else (u_unclamped, integral))
     in (u, integral, filteredDerivative))"

subsection \<open>The simulation loop (Pagina Corregida - copia)\<close>

text \<open>\<open>rnd i\<close> is the value \<open>Math.random()\<close> returns in iteration \<open>i\<close>, a real in
  \<open>[0, 1)\<close>; it is the only input of a run besides the configuration.\<close>

definition plant_output :: "state_space \<Rightarrow> jsnum list \<Rightarrow> jsnum list \<Rightarrow> nat \<Rightarrow> jsnum" where
  "plant_output ss x control i =
     foldl (\<lambda>sum j. sum + ssC ss ! j * js_index x (int j)) (Fin 0) [0 ..< length (ssC ss)]
     + ssD ss * js_or (js_index control (int i - 1)) (Fin 0)"

definition sim_step ::
    "sim_config \<Rightarrow> state_space \<Rightarrow> jsnum list \<Rightarrow> (nat \<Rightarrow> real) \<Rightarrow> nat \<Rightarrow> sim_state
      \<Rightarrow> failure + sim_state" where
  "sim_step cfg ss time rnd i s =
    (let t = js_index time (int i);
         reference = (st_reference s)
           [i := generateReference t (cfg_controlType cfg) (cfg_amplitude cfg) (cfg_frequency cfg)];
         y_plant = plant_output ss (st_x s) (st_control s) i;
         y_disturbance = y_plant + (Fin (rnd i) - Fin 0.5) * Fin 2 * cfg_disturbance cfg;
         output = (st_output s)[i := y_disturbance];
         currentError = js_index reference (int i) - js_index output (int i);
         error = (st_error s)[i := currentError];
         (u, integral, filteredDerivative) =
           pid_control cfg i currentError (st_integral s) (st_prevError s) (st_filteredDerivative s);
         control = (st_control s)[i := u]
     in case rungeKutta (ssA ss) (ssB ss) (st_x s) u (cfg_dt cfg) of
          Inl e \<Rightarrow> Inl e
        | Inr x \<Rightarrow>
            Inr \<lparr>st_x = x, st_integral = integral, st_prevError = currentError,
                 st_filteredDerivative = filteredDerivative, st_reference = reference,
                 st_output = output, st_error = error, st_control = control\<rparr>)"

text \<open>\<open>for (let i = 0; i < steps; i++)\<close>: the first argument counts the iterations that
  remain, the second is \<open>i\<close>.\<close>

fun sim_loop ::
    "nat \<Rightarrow> nat \<Rightarrow> sim_config \<Rightarrow> state_space \<Rightarrow> jsnum list \<Rightarrow> (nat \<Rightarrow> real) \<Rightarrow> sim_state
      \<Rightarrow> failure + sim_state" where
  "sim_loop 0 i cfg ss time rnd s = Inr s"
| "sim_loop (Suc k) i cfg ss time rnd s =
     (case sim_step cfg ss time rnd i s of
        Inl e \<Rightarrow> Inl e
      | Inr s' \<Rightarrow> sim_loop k (Suc i) cfg ss time rnd s')"

text \<open>\<open>Math.floor(simTime / dt)\<close> as an array length: an integer from 0 to \<open>2^32 - 1\<close>,
  else \<open>new Array(steps)\<close> raises a RangeError.\<close>

definition array_length :: "jsnum \<Rightarrow> failure + nat" where
  "array_length steps =
     (case steps of
        Fin k \<Rightarrow> if k < 0 \<or> 2 ^ 32 \<le> k then Inl (RangeError ''Invalid array length'')
                 else Inr (nat \<lfloor>k\<rfloor>)
      | _ \<Rightarrow> Inl (RangeError ''Invalid array length''))"

definition init_state :: "state_space \<Rightarrow> nat \<Rightarrow> sim_state" where
  "init_state ss steps =
     \<lparr>st_x = replicate (length (ssA ss)) (Fin 0), st_integral = Fin 0, st_prevError = Fin 0,
      st_filteredDerivative = Fin 0, st_reference = replicate steps (Fin 0),
      st_output = replicate steps (Fin 0), st_error = replicate steps (Fin 0),
      st_control = replicate steps (Fin 0)\<rparr>"

definition runSimulation :: "sim_config \<Rightarrow> (nat \<Rightarrow> real) \<Rightarrow> failure + simulationData" where
  "runSimulation cfg rnd =
    (let numerator = cfg_numerator cfg; denominator = cfg_denominator cfg in
     if length denominator = 0 \<or> length numerator = 0
        \<or> list_ex isNaN denominator \<or> list_ex isNaN numerator
     then Inl InvalidCoefficients
     else
       case tfToStateSpace numerator denominator of
         Inl e \<Rightarrow> Inl e
       | Inr ss \<Rightarrow>
           (case array_length (Math_floor (rounded (cfg_simTime cfg / cfg_dt cfg))) of
              Inl e \<Rightarrow> Inl e
            | Inr steps \<Rightarrow>
                let time = map (\<lambda>i. rounded (Fin (real i) * cfg_dt cfg)) [0 ..< steps] in
                (case sim_loop steps 0 cfg ss time rnd (init_state ss steps) of
                   Inl e \<Rightarrow> Inl e
                 | Inr s \<Rightarrow>
                     Inr \<lparr>sd_time = time, sd_reference = st_reference s,
                          sd_output = st_output s, sd_error = st_error s,
                          sd_control = st_control s\<rparr>)))"

subsection \<open>The simulation loop (Pagina Profesor)\<close>

text \<open>
  No disturbance, derivative filter or anti-windup, and the coefficient lists are filtered
  of NaN before the check. The loop uses the same variables but \<open>filteredDerivative\<close>,
  which stays as it is.
\<close>

definition sim_step_prof ::
    "sim_config \<Rightarrow> state_space \<Rightarrow> jsnum list \<Rightarrow> nat \<Rightarrow> sim_state \<Rightarrow> failure + sim_state" where
  "sim_step_prof cfg ss time i s =
    (let t = js_index time (int i);
         dt = cfg_dt cfg;
         reference = (st_reference s)
           [i := generateReference_prof t (cfg_controlType cfg) (cfg_amplitude cfg)
                   (cfg_frequency cfg)];
         y = plant_output ss (st_x s) (st_control s) i;
         output = (st_output s)[i := y];
         currentError = js_index reference (int i) - y;
         error = (st_error s)[i := currentError];
         integral = st_integral s + currentError * dt;
         derivative = (if 0 < i then (currentError - st_prevError s) / dt else Fin 0);
         u = cfg_kp cfg * currentError + cfg_ki cfg * integral + cfg_kd cfg * derivative;
         control = (st_control s)[i := u]
     in case rungeKutta (ssA ss) (ssB ss) (st_x s) u dt of
          Inl e \<Rightarrow> Inl e
        | Inr x \<Rightarrow>
            Inr (s\<lparr>st_x := x, st_integral := integral, st_prevError := currentError,
                   st_reference := reference, st_output := output, st_error := error,
                   st_control := control\<rparr>))"

fun sim_loop_prof ::
    "nat \<Rightarrow> nat \<Rightarrow> sim_config \<Rightarrow> state_space \<Rightarrow> jsnum list \<Rightarrow> sim_state
      \<Rightarrow> failure + sim_state" where
  "sim_loop_prof 0 i cfg ss time s = Inr s"
| "sim_loop_prof (Suc k) i cfg ss time s =
     (case sim_step_prof cfg ss time i s of
        Inl e \<Rightarrow> Inl e
      | Inr s' \<Rightarrow> sim_loop_prof k (Suc i) cfg ss time s')"

definition runSimulation_prof :: "sim_config \<Rightarrow> failure + simulationData" where
  "runSimulation_prof cfg =
    (let numerator = filter (\<lambda>n. \<not> isNaN n) (cfg_numerator cfg);
         denominator = filter (\<lambda>n. \<not> isNaN n) (cfg_denominator cfg)
     in
     if length denominator = 0 \<or> length numerator = 0 then Inl InvalidCoefficients
     else
       case tfToStateSpace_prof numerator denominator of
         Inl e \<Rightarrow> Inl e
       | Inr ss \<Rightarrow>
           (case array_length (Math_floor (rounded (cfg_simTime cfg / cfg_dt cfg))) of
              Inl e \<Rightarrow> Inl e
            | Inr steps \<Rightarrow>
                let time = map (\<lambda>i. rounded (Fin (real i) * cfg_dt cfg)) [0 ..< steps] in
                (case sim_loop_prof steps 0 cfg ss time (init_state ss steps) of
                   Inl e \<Rightarrow> Inl e
                 | Inr s \<Rightarrow>
                     Inr \<lparr>sd_time = time, sd_reference = st_reference s,
                          sd_output = st_output s, sd_error = st_error s,
                          sd_control = st_control s\<rparr>)))"

subsection \<open>simulatePID (Pagina Corregida)\<close>

text \<open>
  This page simulates one fixed plant, \<open>theta'' = (-g / L) * theta + u\<close> with
  \<open>g = 9.8\<close> and \<open>L = 1.0\<close>, advanced by \<open>omega += alpha * timeStep;
  theta += omega * timeStep\<close>, and keeps four histories, each extended by \<open>push\<close> once
  per iteration.
\<close>

record pid_inputs =
  in_kp :: jsnum
  in_ki :: jsnum
  in_kd :: jsnum
  in_setpoint :: jsnum
  in_timeStep :: jsnum
  in_simulationTime :: jsnum

record pid_state =
  ps_theta :: jsnum
  ps_omega :: jsnum
  ps_integralError :: jsnum
  ps_previousError :: jsnum
  ps_time :: jsnum
  ps_timeHistory :: "jsnum list"
  ps_systemOutputHistory :: "jsnum list"
  ps_controlSignalHistory :: "jsnum list"
  ps_referenceSignalHistory :: "jsnum list"

definition pid_body :: "pid_inputs \<Rightarrow> pid_state \<Rightarrow> pid_state" where
  "pid_body inp s =
    (let g = Fin 9.8; L = Fin 1.0;
         timeStep = in_timeStep inp;
         error = in_setpoint inp - ps_theta s;
         integralError = ps_integralError s + error * timeStep;
         derivativeError = (error - ps_previousError s) / timeStep;
         controlSignal = in_kp inp * error + in_ki inp * integralError + in_kd inp * derivativeError;
         alpha = (- g / L) * ps_theta s + controlSignal;
         omega = ps_omega s + alpha * timeStep;
         theta = ps_theta s + omega * timeStep;
         time = rounded (ps_time s + timeStep)
     in \<lparr>ps_theta = theta, ps_omega = omega, ps_integralError = integralError,
         ps_previousError = error, ps_time = time,
         ps_timeHistory = ps_timeHistory s @ [time],
         ps_systemOutputHistory = ps_systemOutputHistory s @ [theta],
         ps_controlSignalHistory = ps_controlSignalHistory s @ [controlSignal],
         ps_referenceSignalHistory = ps_referenceSignalHistory s @ [in_setpoint inp]\<rparr>)"

text \<open>\<open>for (let i = 0; i < simulationTime / timeStep; i++)\<close>, for a quotient that is the
  finite number \<open>r\<close>.\<close>

function pid_loop :: "real \<Rightarrow> pid_inputs \<Rightarrow> nat \<Rightarrow> pid_state \<Rightarrow> pid_state" where
  "pid_loop r inp i s = (if real i < r then pid_loop r inp (Suc i) (pid_body inp s) else s)"
  by pat_completeness auto
termination
  by (relation "measure (\<lambda>(r, inp, i, s). nat \<lceil>r\<rceil> - i)") (auto, linarith)

declare pid_loop.simps [simp del]

definition pid_reset :: pid_state where
  "pid_reset =
     \<lparr>ps_theta = Fin 0, ps_omega = Fin 0, ps_integralError = Fin 0, ps_previousError = Fin 0,
      ps_time = Fin 0, ps_timeHistory = [], ps_systemOutputHistory = [],
      ps_controlSignalHistory = [], ps_referenceSignalHistory = []\<rparr>"

text \<open>
  The input check rejects every input that is not finite, so the loop bound is the
  quotient, rounded to a double, of two positive finite numbers: a finite number or
  \<open>Infinity\<close>. Each iteration extends each history by one element, and the \<open>push\<close> that
  would make the length of an array \<open>2^32\<close> raises a RangeError: this is the first
  \<open>push\<close> of iteration \<open>2^32 - 1\<close>, which is reached when the bound is greater than
  \<open>2^32 - 1\<close>. The run then ends with this failure and nothing is plotted; the model
  gives the failure without the iterations before it.
\<close>

definition simulatePID :: "pid_inputs \<Rightarrow> failure + pid_state" where
  "simulatePID inp =
    (case (in_timeStep inp, in_simulationTime inp) of
       (Fin timeStep, Fin simulationTime) \<Rightarrow>
         if \<not> isFinite (in_kp inp) \<or> \<not> isFinite (in_ki inp) \<or> \<not> isFinite (in_kd inp)
            \<or> \<not> isFinite (in_setpoint inp) \<or> timeStep \<le> 0 \<or> simulationTime \<le> 0
         then Inl InvalidInputs
         else
           (case rounded (Fin simulationTime / Fin timeStep) of
              Fin r \<Rightarrow> if 2 ^ 32 - 1 < r then Inl (RangeError ''Invalid array length'')
                       else Inr (pid_loop r inp 0 pid_reset)
            | _ \<Rightarrow> Inl (RangeError ''Invalid array length''))
     | _ \<Rightarrow> Inl InvalidInputs)"

section \<open>MetricsAnalyzer: overshoot\<close>

text \<open>The overshoot computed by \<open>displayMetrics\<close>, before it is formatted for the page.\<close>

definition displayMetrics_overshoot :: "jsnum list \<Rightarrow> jsnum list \<Rightarrow> jsnum" where
  "displayMetrics_overshoot reference output =
    (let finalValue = js_index reference (int (length reference) - 1);
         peakValue = Math_max output
     in if Fin 0 < finalValue
        then let overshoot = (peakValue - finalValue) / finalValue * Fin 100
             in if overshoot < Fin 0 then Fin 0 else overshoot
        else Fin 0)"

text \<open>Pagina Profesor computes it for a step reference only, and without the check
  for a negative value.\<close>

definition displayMetrics_overshoot_prof :: "string \<Rightarrow> jsnum list \<Rightarrow> jsnum list \<Rightarrow> jsnum" where
  "displayMetrics_overshoot_prof controlType reference output =
    (let finalRef = js_index reference (int (length reference) - 1) in
     if controlType = ''step''
     then let maxValue = Math_max output
          in if Fin 0 < finalRef then ((maxValue - finalRef) / finalRef) * Fin 100 else Fin 0
     else Fin 0)"

section \<open>AutoTuner: the ultimate period\<close>

subsection \<open>findTu (Pagina Profesor)\<close>

text \<open>The value \<open>tu\<close> that \<open>findTu\<close> computes; the page shows it, or \<open>N/A\<close> when it is
  not positive.\<close>

definition findTu_peaks_prof :: "jsnum list \<Rightarrow> jsnum list \<Rightarrow> jsnum list" where
  "findTu_peaks_prof output time =
     map (\<lambda>i. js_index time (int i))
       (filter (\<lambda>i. js_index output (int i - 1) < js_index output (int i)
                     \<and> js_index output (int i + 1) < js_index output (int i)
                     \<and> Fin 1 < js_index output (int i))
          [length output div 2 ..< length output - 1])"

definition tu_of_peaks_prof :: "jsnum list \<Rightarrow> jsnum" where
  "tu_of_peaks_prof peaks =
    (if 2 \<le> length peaks
     then foldl (\<lambda>totalPeriod i. totalPeriod + (js_index peaks (int i + 1) - js_index peaks (int i)))
            (Fin 0) [0 ..< length peaks - 1]
          / Fin (real (length peaks) - 1)
     else Fin 0)"

definition findTu_prof :: "jsnum list \<Rightarrow> jsnum list \<Rightarrow> jsnum" where
  "findTu_prof output time = tu_of_peaks_prof (findTu_peaks_prof output time)"

subsection \<open>findTu (Pagina Corregida - copia)\<close>

text \<open>The loop state is \<open>(peaks, prevValue, rising)\<close>.\<close>

definition findTu_scan :: "jsnum list \<Rightarrow> jsnum list \<Rightarrow> jsnum list \<times> jsnum \<times> bool" where
  "findTu_scan output time =
     foldl (\<lambda>(peaks, prevValue, rising) i.
              if prevValue < js_index output (int i) then (peaks, js_index output (int i), True)
              else if js_index output (int i) < prevValue \<and> rising
                   then (peaks @ [js_index time (int i)], js_index output (int i), False)
                   else (peaks, js_index output (int i), rising))
       ([], js_index output 0, False) [1 ..< length output]"

definition findTu_peaks :: "jsnum list \<Rightarrow> jsnum list \<Rightarrow> jsnum list" where
  "findTu_peaks output time = fst (findTu_scan output time)"

definition tu_of_peaks :: "jsnum list \<Rightarrow> jsnum" where
  "tu_of_peaks peaks =
    (if 2 \<le> length peaks
     then js_index peaks (int (length peaks) - 1) - js_index peaks (int (length peaks) - 2)
     else Fin 0)"

definition findTu :: "jsnum list \<Rightarrow> jsnum list \<Rightarrow> jsnum" where
  "findTu output time = tu_of_peaks (findTu_peaks output time)"

text \<open>The mean of the differences of consecutive peak times, as the specification words
  it.\<close>

definition spec_mean_period :: "real list \<Rightarrow> real" where
  "spec_mean_period ps = (\<Sum>i < length ps - 1. ps ! (i + 1) - ps ! i) / real (length ps - 1)"

section \<open>Properties of rounding\<close>

lemma round_even_nonneg: "0 \<le> x \<Longrightarrow> 0 \<le> round_even x"
  unfolding round_even_def Let_def by (auto; linarith)

lemma round_even_le: "x \<le> of_int m \<Longrightarrow> round_even x \<le> m"
  unfolding round_even_def Let_def by (auto; linarith)

text \<open>
  The double nearest to a positive \<open>x\<close> of the normal range, from the position \<open>j\<close> of
  its last significand bit: \<open>x \<cdot> 2^j\<close> lies between \<open>2^52\<close> and \<open>2^53\<close>, and is rounded
  to an integer.
\<close>

lemma double_round_eval:
  assumes "2 ^ 52 \<le> x * 2 ^ j" and "x * 2 ^ j < 2 ^ 53" and "j \<le> 1074"
  shows "double_round x = Fin (of_int (round_even (x * 2 ^ j)) / 2 ^ j)"
proof -
  have pos: "0 < x"
    using assms(1) by (smt (verit) mult_nonpos_nonneg zero_le_power zero_less_power)
  have lo: "2 powr (52 - real j) \<le> x"
  proof -
    have "2 powr (52 - real j) = 2 ^ 52 / 2 ^ j"
      by (simp add: powr_diff powr_realpow)
    also have "\<dots> \<le> x"
      using assms(1) by (simp add: field_simps)
    finally show ?thesis .
  qed
  have hi: "x < 2 powr (53 - real j)"
  proof -
    have "x < 2 ^ 53 / 2 ^ j"
      using assms(2) by (simp add: field_simps)
    also have "\<dots> = 2 powr (53 - real j)"
      by (simp add: powr_diff powr_realpow)
    finally show ?thesis .
  qed
  have "\<lfloor>log 2 x\<rfloor> = 52 - int j"
    using pos lo hi by (subst floor_log_eq_powr_iff) (simp_all add: algebra_simps)
  then have e: "max \<lfloor>log 2 \<bar>x\<bar>\<rfloor> (- 1022) = 52 - int j"
    using pos assms(3) by simp
  have ulp: "2 powr (of_int (52 - int j) - 52) = 1 / (2 :: real) ^ j"
    by (simp add: powr_minus powr_realpow divide_simps)
  let ?n = "round_even (x * 2 ^ j)"
  have "?n \<le> 2 ^ 53"
    using assms(2) by (intro round_even_le) simp
  then have "real_of_int ?n \<le> 2 ^ 53"
    by (metis of_int_le_iff of_int_numeral of_int_power)
  moreover have "0 \<le> ?n"
    using pos by (intro round_even_nonneg) simp
  ultimately have "\<bar>real_of_int ?n / 2 ^ j\<bar> \<le> 2 ^ 53"
    by (smt (verit) abs_of_nonneg divide_le_eq_1_pos divide_nonneg_nonneg of_int_0_le_iff one_le_power
        zero_le_power zero_less_power frac_le div_by_1 less_eq_real_def)
  also have "\<dots> < (2 :: real) ^ 1024"
    by simp
  finally have small: "\<not> 2 ^ 1024 \<le> \<bar>real_of_int ?n / 2 ^ j\<bar>"
    by simp
  show ?thesis
    unfolding double_round_def Let_def e ulp using pos small by simp
qed

lemma double_round_sign:
  assumes "double_round x = Fin q" and "0 \<le> x"
  shows "0 \<le> q"
proof (cases "x = 0")
  case True
  with assms show ?thesis by (simp add: double_round_def)
next
  case False
  define ulp :: real where "ulp = 2 powr (of_int (max \<lfloor>log 2 \<bar>x\<bar>\<rfloor> (- 1022)) - 52)"
  have ulp: "0 < ulp"
    by (simp add: ulp_def)
  have "q = of_int (round_even (x / ulp)) * ulp"
    using assms(1) False unfolding double_round_def Let_def ulp_def [symmetric]
    by (simp split: if_splits)
  moreover have "0 \<le> round_even (x / ulp)"
    using assms(2) ulp by (intro round_even_nonneg) simp
  ultimately show ?thesis
    using ulp by simp
qed

text \<open>Small integers, and 2.5, are doubles.\<close>

lemma double_round_small:
  "double_round 0 = Fin 0" "double_round 1 = Fin 1" "double_round 2 = Fin 2"
  "double_round 3 = Fin 3" "double_round (5 / 2) = Fin (5 / 2)"
proof -
  show "double_round 0 = Fin 0"
    by (simp add: double_round_def)
  show "double_round 1 = Fin 1"
    by (subst double_round_eval [where j = 52]) (simp_all add: round_even_def Let_def)
  show "double_round 2 = Fin 2"
    by (subst double_round_eval [where j = 51]) (simp_all add: round_even_def Let_def)
  show "double_round 3 = Fin 3"
    by (subst double_round_eval [where j = 51]) (simp_all add: round_even_def Let_def)
  show "double_round (5 / 2) = Fin (5 / 2)"
    by (subst double_round_eval [where j = 51]) (simp_all add: round_even_def Let_def)
qed

text \<open>
  The decimal numerals 0.3, 0.1, 0.07 and 0.01 as \<open>parseFloat\<close> reads them, and three
  quotients: \<open>0.3 / 0.1\<close> is \<open>2.9999999999999996\<close>, \<open>0.07 / 0.01\<close> is
  \<open>7.000000000000001\<close>, and \<open>10 / 0.01\<close> is 1000 although the quotient of the two doubles
  is less than 1000.
\<close>

lemma parseFloat_examples:
  "double_round (3 / 10) = Fin (5404319552844595 / 2 ^ 54)"
  "double_round (1 / 10) = Fin (3602879701896397 / 2 ^ 55)"
  "double_round (7 / 100) = Fin (1261007895663739 / 2 ^ 54)"
  "double_round (1 / 100) = Fin (5764607523034235 / 2 ^ 59)"
proof -
  show "double_round (3 / 10) = Fin (5404319552844595 / 2 ^ 54)"
    by (subst double_round_eval [where j = 54]) (simp_all add: round_even_def Let_def)
  show "double_round (1 / 10) = Fin (3602879701896397 / 2 ^ 55)"
    by (subst double_round_eval [where j = 56]) (simp_all add: round_even_def Let_def)
  show "double_round (7 / 100) = Fin (1261007895663739 / 2 ^ 54)"
    by (subst double_round_eval [where j = 56]) (simp_all add: round_even_def Let_def)
  show "double_round (1 / 100) = Fin (5764607523034235 / 2 ^ 59)"
    by (subst double_round_eval [where j = 59]) (simp_all add: round_even_def Let_def)
qed

lemma quotient_examples:
  "rounded (Fin (5404319552844595 / 2 ^ 54) / Fin (3602879701896397 / 2 ^ 55))
     = Fin (6755399441055743 / 2 ^ 51)"
  "rounded (Fin (1261007895663739 / 2 ^ 54) / Fin (5764607523034235 / 2 ^ 59))
     = Fin (7881299347898369 / 2 ^ 50)"
  "rounded (Fin 10 / Fin (5764607523034235 / 2 ^ 59)) = Fin 1000"
  "10 / (5764607523034235 / 2 ^ 59) < (1000 :: real)"
proof -
  show "rounded (Fin (5404319552844595 / 2 ^ 54) / Fin (3602879701896397 / 2 ^ 55))
     = Fin (6755399441055743 / 2 ^ 51)"
    by simp (subst double_round_eval [where j = 51], simp_all add: round_even_def Let_def)
  show "rounded (Fin (1261007895663739 / 2 ^ 54) / Fin (5764607523034235 / 2 ^ 59))
     = Fin (7881299347898369 / 2 ^ 50)"
    by simp (subst double_round_eval [where j = 50], simp_all add: round_even_def Let_def)
  show "rounded (Fin 10 / Fin (5764607523034235 / 2 ^ 59)) = Fin 1000"
    by simp (subst double_round_eval [where j = 43], simp_all add: round_even_def Let_def)
  show "10 / (5764607523034235 / 2 ^ 59) < (1000 :: real)"
    by simp
qed

section \<open>Properties of the PlantModel\<close>

subsection \<open>The loops as closed forms\<close>

lemma fill_superdiagonal_steps:
  "k \<le> length A0 \<Longrightarrow>
   foldl (\<lambda>A i. A[i := (A ! i)[i + 1 := Fin 1]]) A0 [0 ..< k]
   = map (\<lambda>i. if i < k then (A0 ! i)[i + 1 := Fin 1] else A0 ! i) [0 ..< length A0]"
proof (induction k)
  case 0
  then show ?case by (simp add: map_nth)
next
  case (Suc k)
  then have k: "k < length A0" by simp
  show ?case
    using Suc k by (auto intro!: nth_equalityI simp: nth_list_update less_Suc_eq)
qed

lemma fill_bottom_row_steps:
  "r < length A0 \<Longrightarrow> k \<le> length (A0 ! r) \<Longrightarrow>
   foldl (\<lambda>A i. A[r := (A ! r)[i := row i]]) A0 [0 ..< k]
   = A0[r := map (\<lambda>j. if j < k then row j else A0 ! r ! j) [0 ..< length (A0 ! r)]]"
proof (induction k)
  case 0
  then show ?case by (simp add: map_nth)
next
  case (Suc k)
  then show ?case
    by (auto intro!: nth_equalityI simp: nth_list_update less_Suc_eq)
qed

lemma fill_superdiagonal_zero:
  "fill_superdiagonal n (replicate n (replicate n (Fin 0)))
   = map (\<lambda>i. if i < n - 1 then (replicate n (Fin 0))[i + 1 := Fin 1] else replicate n (Fin 0))
       [0 ..< n]"
  unfolding fill_superdiagonal_def
  by (subst fill_superdiagonal_steps) (auto intro!: nth_equalityI)

lemma companion_matrix:
  "fill_bottom_row n row (fill_superdiagonal n (replicate n (replicate n (Fin 0))))
   = map (\<lambda>i. if i = n - 1 then map row [0 ..< n]
                else (replicate n (Fin 0))[i + 1 := Fin 1]) [0 ..< n]"
proof (cases "n = 0")
  case True
  then show ?thesis by (simp add: fill_bottom_row_def fill_superdiagonal_def)
next
  case False
  let ?S = "fill_superdiagonal n (replicate n (replicate n (Fin 0)))"
  have len: "length ?S = n" by (simp add: fill_superdiagonal_zero)
  have last_row: "?S ! (n - 1) = replicate n (Fin 0)"
    using False by (simp add: fill_superdiagonal_zero)
  have "fill_bottom_row n row ?S
        = ?S[n - 1 := map (\<lambda>j. if j < n then row j else ?S ! (n - 1) ! j) [0 ..< length (?S ! (n - 1))]]"
    unfolding fill_bottom_row_def
    by (rule fill_bottom_row_steps) (use False len last_row in auto)
  also have "\<dots> = ?S[n - 1 := map row [0 ..< n]]"
  proof -
    have m: "map (\<lambda>j. if j < n then row j else replicate n (Fin 0) ! j) [0 ..< n]
             = map row [0 ..< n]"
      by simp
    show ?thesis
      unfolding last_row by (simp add: m)
  qed
  finally show ?thesis
    using False by (auto intro!: nth_equalityI simp: fill_superdiagonal_zero nth_list_update)
qed

lemma companion_entries:
  assumes "i < n" "j < n"
  shows "fill_bottom_row n row (fill_superdiagonal n (replicate n (replicate n (Fin 0)))) ! i ! j
         = (if i = n - 1 then row j else if j = i + 1 then Fin 1 else Fin 0)"
  using assms by (auto simp: companion_matrix nth_list_update)

lemma unit_last_eq: "0 < n \<Longrightarrow> unit_last n = replicate (n - 1) (Fin 0) @ [Fin 1]"
  by (auto simp: unit_last_def intro!: nth_equalityI simp: nth_list_update nth_append)

lemma js_index_nth: "i < length xs \<Longrightarrow> js_index xs (int i) = xs ! i"
  by (simp add: js_index_def)

lemma tfToStateSpace_proper:
  assumes "length den = n + 1" and "den ! 0 \<noteq> Fin 0" and "length num \<le> n + 1"
  shows "tfToStateSpace num den =
    Inr \<lparr>ssA = map (\<lambda>i. if i = n - 1 then map (\<lambda>j. - (den ! (n - j) / den ! 0)) [0 ..< n]
                          else (replicate n (Fin 0))[i + 1 := Fin 1]) [0 ..< n],
         ssB = unit_last n,
         ssC = drop 1 (replicate (n + 1 - length num) (Fin 0) @ map (\<lambda>c. c / den ! 0) num),
         ssD = (replicate (n + 1 - length num) (Fin 0) @ map (\<lambda>c. c / den ! 0) num) ! 0\<rparr>"
proof -
  have idx: "js_index den 0 = den ! 0"
    using assms(1) by (simp add: js_index_def)
  have cnt: "nat (int n - int (length num) + 1) = n + 1 - length num"
    using assms(3) by simp
  have row: "map (\<lambda>i. - js_index (map (\<lambda>d. d / den ! 0) den) (int n - int i)) [0 ..< n]
             = map (\<lambda>j. - (den ! (n - j) / den ! 0)) [0 ..< n]"
    using assms(1) by (auto simp: js_index_def nat_diff_distrib' of_nat_diff)
  have pad0: "js_index (replicate (n + 1 - length num) (Fin 0) @ map (\<lambda>c. c / den ! 0) num) 0
             = (replicate (n + 1 - length num) (Fin 0) @ map (\<lambda>c. c / den ! 0) num) ! 0"
    using assms(3) by (simp add: js_index_def)
  have cnt': "nat (1 + int n - int (length num)) = Suc n - length num"
    using assms(3) by simp
  have ne: "den \<noteq> []"
    using assms(1) by auto
  show ?thesis
    using assms row pad0 ne
    by (simp add: tfToStateSpace_def Let_def idx cnt cnt' companion_matrix cong: if_cong)
qed

lemma foldl_update_all:
  "n \<le> length C0 \<Longrightarrow> foldl (\<lambda>C i. C[i := g i]) C0 [0 ..< n] = map g [0 ..< n] @ drop n C0"
proof (induction n)
  case 0
  then show ?case by simp
next
  case (Suc n)
  then show ?case
    by (auto intro!: nth_equalityI simp: nth_list_update nth_append less_Suc_eq)
qed

lemma tfToStateSpace_prof_proper:
  assumes "length den = n + 1" and "length num \<le> n + 1"
  shows "tfToStateSpace_prof num den =
    Inr \<lparr>ssA = map (\<lambda>i. if i = n - 1 then map (\<lambda>j. - (den ! (n - j) / den ! 0)) [0 ..< n]
                          else (replicate n (Fin 0))[i + 1 := Fin 1]) [0 ..< n],
         ssB = unit_last n,
         ssC = map (\<lambda>i.
                 (replicate (n + 1 - length num) (Fin 0) @ map (\<lambda>c. c / den ! 0) num) ! (n - i)
                 - (replicate (n + 1 - length num) (Fin 0) @ map (\<lambda>c. c / den ! 0) num) ! 0
                   * (den ! (n - i) / den ! 0)) [0 ..< n],
         ssD = (replicate (n + 1 - length num) (Fin 0) @ map (\<lambda>c. c / den ! 0) num) ! 0\<rparr>"
proof -
  let ?den = "tl (map (\<lambda>d. d / den ! 0) den)"
  let ?pad = "replicate (n + 1 - length num) (Fin 0) @ map (\<lambda>c. c / den ! 0) num"
  have idx: "js_index den 0 = den ! 0"
    using assms(1) by (simp add: js_index_def)
  have len: "length ?den = n"
    using assms(1) by simp
  have cnt: "nat (int n - int (length num) + 1) = n + 1 - length num"
    using assms(2) by simp
  have ok: "\<not> int n - int (length num) + 1 < 0"
    using assms(2) by simp
  have lpad: "length ?pad = n + 1"
    using assms(2) by simp
  have den_at: "js_index ?den (int n - 1 - int i) = den ! (n - i) / den ! 0" if "i < n" for i
  proof -
    have k: "nat (int n - 1 - int i) = n - 1 - i"
      using that by linarith
    have "js_index ?den (int n - 1 - int i) = ?den ! (n - 1 - i)"
      using that len k by (simp add: js_index_def)
    also have "\<dots> = map (\<lambda>d. d / den ! 0) den ! (n - i)"
      using that assms(1) by (simp add: nth_tl Suc_diff_Suc)
    also have "\<dots> = den ! (n - i) / den ! 0"
      using that assms(1) by simp
    finally show ?thesis .
  qed
  have row: "map (\<lambda>i. - js_index ?den (int n - 1 - int i)) [0 ..< n]
             = map (\<lambda>j. - (den ! (n - j) / den ! 0)) [0 ..< n]"
    by (simp add: den_at)
  have pad_at: "js_index ?pad (int (length ?pad) - 1 - int i) = ?pad ! (n - i)" if "i < n" for i
  proof -
    have k: "nat (int (length ?pad) - 1 - int i) = n - i"
      using that lpad by linarith
    have "0 \<le> int (length ?pad) - 1 - int i" "int (length ?pad) - 1 - int i < int (length ?pad)"
      using that lpad by linarith+
    then show ?thesis
      unfolding js_index_def k by simp
  qed
  have pad0: "js_index ?pad 0 = ?pad ! 0"
    using lpad by (simp add: js_index_def)
  have C: "map (\<lambda>i. js_index ?pad (int (length ?pad) - 1 - int i)
                     - ?pad ! 0 * js_index ?den (int n - 1 - int i)) [0 ..< n]
           = map (\<lambda>i. ?pad ! (n - i) - ?pad ! 0 * (den ! (n - i) / den ! 0)) [0 ..< n]"
  proof (rule map_cong [OF refl])
    fix i assume "i \<in> set [0 ..< n]"
    then have i: "i < n" by simp
    show "js_index ?pad (int (length ?pad) - 1 - int i)
            - ?pad ! 0 * js_index ?den (int n - 1 - int i)
          = ?pad ! (n - i) - ?pad ! 0 * (den ! (n - i) / den ! 0)"
      unfolding den_at [OF i] pad_at [OF i] by (rule refl)
  qed
  show ?thesis
    unfolding tfToStateSpace_prof_def Let_def idx len cnt
    using ok
    by (simp only: idx len cnt if_False companion_matrix row foldl_update_all length_replicate
          length_map length_upt diff_zero order_refl drop_all append_Nil2 C pad0 sum.inject
          state_space.simps simp_thms)
qed

text \<open>
  C1 (amended). For every transfer function with a denominator of \<open>n + 1\<close> coefficients
  whose leading one is not zero and a numerator no longer than the denominator, both versions
  of \<open>tfToStateSpace\<close> return a model whose \<open>A\<close> is \<open>n\<close> by \<open>n\<close>, with 1 on the
  superdiagonal, with minus the normalised denominator coefficient at position \<open>n - j\<close> in
  column \<open>j\<close> of the bottom row and 0 elsewhere, and whose \<open>B\<close> has length \<open>n\<close>, with 1
  in the last position and 0 elsewhere. For the denominator \<open>[1, 3, 2]\<close> this is
  \<open>A = [[0, 1], [-2, -3]]\<close> and \<open>B = [0, 1]\<close>, as the instance after the theorem shows.
\<close>

theorem plant_model_companion_form:
  assumes "length den = n + 1" and "den ! 0 \<noteq> Fin 0" and "length num \<le> n + 1"
  shows "\<exists>ss ss'. tfToStateSpace num den = Inr ss \<and> tfToStateSpace_prof num den = Inr ss'
     \<and> ssA ss' = ssA ss \<and> ssB ss' = ssB ss
     \<and> length (ssA ss) = n \<and> (\<forall>i<n. length (ssA ss ! i) = n)
     \<and> (\<forall>i<n. \<forall>j<n. ssA ss ! i ! j =
           (if i = n - 1 then - (den ! (n - j) / den ! 0)
            else if j = i + 1 then Fin 1 else Fin 0))
     \<and> length (ssB ss) = n
     \<and> (\<forall>i<n. ssB ss ! i = (if i = n - 1 then Fin 1 else Fin 0))"
proof -
  let ?A = "map (\<lambda>i. if i = n - 1 then map (\<lambda>j. - (den ! (n - j) / den ! 0)) [0 ..< n]
                       else (replicate n (Fin 0))[i + 1 := Fin 1]) [0 ..< n]"
  have rows: "\<forall>i<n. length (?A ! i) = n"
    by simp
  have entries: "\<forall>i<n. \<forall>j<n. ?A ! i ! j =
           (if i = n - 1 then - (den ! (n - j) / den ! 0)
            else if j = i + 1 then Fin 1 else Fin 0)"
    by (auto simp: nth_list_update)
  have unit: "\<forall>i<n. unit_last n ! i = (if i = n - 1 then Fin 1 else Fin 0)"
    by (auto simp: unit_last_def nth_list_update)
  have lenB: "length (unit_last n) = n"
    by (simp add: unit_last_def)
  show ?thesis
    unfolding tfToStateSpace_proper [OF assms] tfToStateSpace_prof_proper [OF assms(1,3)]
    using rows entries unit lenB by simp
qed

theorem plant_model_companion_form_witness:
  "length [Fin 1, Fin 3, Fin 2] = 2 + 1 \<and> [Fin 1, Fin 3, Fin 2] ! 0 \<noteq> Fin 0
   \<and> length [Fin 1] \<le> 2 + 1
   \<and> (\<exists>ss ss'. tfToStateSpace [Fin 1] [Fin 1, Fin 3, Fin 2] = Inr ss
         \<and> tfToStateSpace_prof [Fin 1] [Fin 1, Fin 3, Fin 2] = Inr ss'
         \<and> ssA ss = [[Fin 0, Fin 1], [Fin (- 2), Fin (- 3)]] \<and> ssB ss = [Fin 0, Fin 1]
         \<and> ssA ss' = [[Fin 0, Fin 1], [Fin (- 2), Fin (- 3)]] \<and> ssB ss' = [Fin 0, Fin 1])"
proof -
  let ?den = "[Fin 1, Fin 3, Fin 2]"
  have h1: "length ?den = 2 + 1" and h2: "?den ! 0 \<noteq> Fin 0" and h3: "length [Fin 1] \<le> 2 + 1"
    by simp_all
  from plant_model_companion_form [OF h1 h2 h3]
  obtain ss ss' where run: "tfToStateSpace [Fin 1] ?den = Inr ss"
      "tfToStateSpace_prof [Fin 1] ?den = Inr ss'"
    and same: "ssA ss' = ssA ss" "ssB ss' = ssB ss"
    and lenA: "length (ssA ss) = 2" and rows: "\<forall>i<2. length (ssA ss ! i) = 2"
    and entries: "\<forall>i<2. \<forall>j<2. ssA ss ! i ! j =
           (if i = 2 - 1 then - (?den ! (2 - j) / ?den ! 0)
            else if j = i + 1 then Fin 1 else Fin 0)"
    and lenB: "length (ssB ss) = 2"
    and unit: "\<forall>i<2. ssB ss ! i = (if i = 2 - 1 then Fin 1 else Fin 0)"
    by blast
  have two: "xs = [xs ! 0, xs ! 1]" if "length xs = 2" for xs :: "'a list"
    using that by (auto intro!: nth_equalityI simp: less_Suc_eq numeral_2_eq_2)
  have r0: "ssA ss ! 0 = [Fin 0, Fin 1]"
    using two [of "ssA ss ! 0"] rows entries by simp
  have r1: "ssA ss ! 1 = [Fin (- 2), Fin (- 3)]"
    using two [of "ssA ss ! 1"] rows entries by (simp add: numeral_2_eq_2)
  have A: "ssA ss = [[Fin 0, Fin 1], [Fin (- 2), Fin (- 3)]]"
    using two [OF lenA] r0 r1 by simp
  have B: "ssB ss = [Fin 0, Fin 1]"
    using two [OF lenB] unit by simp
  show ?thesis
    using run same A B by simp
qed

text \<open>
  The claim as first stated (for every valid transfer function) fails on a numerator
  longer than the denominator, which the specification counts among the accepted inputs:
  for the numerator \<open>[1, 2, 3]\<close> and the denominator \<open>[1, 1]\<close> the padding
  \<open>Array(n - num.length + 1)\<close> has the length \<open>-1\<close>, and both versions raise a RangeError
  before \<open>A\<close> or \<open>B\<close> is built.
\<close>

theorem plant_model_companion_form_counterexample:
  "tfToStateSpace [Fin 1, Fin 2, Fin 3] [Fin 1, Fin 1]
     = Inl (RangeError ''Invalid array length'')
   \<and> tfToStateSpace_prof [Fin 1, Fin 2, Fin 3] [Fin 1, Fin 1]
     = Inl (RangeError ''Invalid array length'')"
  by (simp add: tfToStateSpace_def tfToStateSpace_prof_def js_index_def Let_def)

text \<open>
  C2 (amended). For every valid transfer function, with \<open>padded\<close> the numerator divided by
  the leading denominator coefficient and extended by zeros on the left to length
  \<open>n + 1\<close>: \<open>tfToStateSpace\<close> of Pagina Corregida - copia returns \<open>C\<close> equal to \<open>padded\<close>
  without its first element, in that order, and \<open>D\<close> equal to that first element;
  \<open>tfToStateSpace\<close> of Pagina Profesor returns the same \<open>D\<close>, and a \<open>C\<close> of length \<open>n\<close>
  whose element \<open>i\<close> is \<open>padded[n - i]\<close> minus \<open>D\<close> times the normalised denominator
  coefficient at position \<open>n - i\<close>, that is, the rest of \<open>padded\<close> in reverse order,
  corrected by the feedthrough.
\<close>

theorem plant_model_output_split:
  assumes "length den = n + 1" and "den ! 0 \<noteq> Fin 0" and "length num \<le> n + 1"
    and "padded = replicate (n + 1 - length num) (Fin 0) @ map (\<lambda>c. c / den ! 0) num"
  shows "\<exists>ss ss'. tfToStateSpace num den = Inr ss \<and> tfToStateSpace_prof num den = Inr ss'
     \<and> length padded = n + 1
     \<and> ssC ss = tl padded \<and> ssD ss = hd padded
     \<and> ssD ss' = hd padded \<and> length (ssC ss') = n
     \<and> (\<forall>i<n. ssC ss' ! i = padded ! (n - i) - hd padded * (den ! (n - i) / den ! 0))"
proof -
  have len: "length padded = n + 1"
    using assms(3,4) by simp
  then have ne: "padded \<noteq> []"
    by auto
  have hd0: "padded ! 0 = hd padded"
    using ne by (simp add: hd_conv_nth)
  show ?thesis
    unfolding tfToStateSpace_proper [OF assms(1-3)] tfToStateSpace_prof_proper [OF assms(1,3)]
      assms(4) [symmetric]
    using len hd0 by (simp add: drop_Suc)
qed

theorem plant_model_output_split_witness:
  "length [Fin 1, Fin 3, Fin 2] = 2 + 1 \<and> [Fin 1, Fin 3, Fin 2] ! 0 \<noteq> Fin 0
   \<and> length [Fin 1, Fin 2, Fin 3] \<le> 2 + 1
   \<and> (\<exists>ss ss'. tfToStateSpace [Fin 1, Fin 2, Fin 3] [Fin 1, Fin 3, Fin 2] = Inr ss
         \<and> tfToStateSpace_prof [Fin 1, Fin 2, Fin 3] [Fin 1, Fin 3, Fin 2] = Inr ss'
         \<and> ssC ss = [Fin 2, Fin 3] \<and> ssD ss = Fin 1
         \<and> ssC ss' = [Fin 1, Fin (- 1)] \<and> ssD ss' = Fin 1)"
proof -
  let ?den = "[Fin 1, Fin 3, Fin 2]" and ?num = "[Fin 1, Fin 2, Fin 3]"
  have h1: "length ?den = 2 + 1" and h2: "?den ! 0 \<noteq> Fin 0" and h3: "length ?num \<le> 2 + 1"
    and h4: "?num = replicate (2 + 1 - length ?num) (Fin 0) @ map (\<lambda>c. c / ?den ! 0) ?num"
    by simp_all
  from plant_model_output_split [OF h1 h2 h3 h4]
  obtain ss ss' where run: "tfToStateSpace ?num ?den = Inr ss"
      "tfToStateSpace_prof ?num ?den = Inr ss'"
    and C: "ssC ss = tl ?num" and D: "ssD ss = hd ?num" and D': "ssD ss' = hd ?num"
    and lenC: "length (ssC ss') = 2"
    and C': "\<forall>i<2. ssC ss' ! i = ?num ! (2 - i) - hd ?num * (?den ! (2 - i) / ?den ! 0)"
    by blast
  have two: "xs = [xs ! 0, xs ! 1]" if "length xs = 2" for xs :: "'a list"
    using that by (auto intro!: nth_equalityI simp: less_Suc_eq numeral_2_eq_2)
  have "ssC ss' = [Fin 1, Fin (- 1)]"
    using two [OF lenC] C' by (simp add: minus_jsnum_def)
  then show ?thesis
    using run C D D' by simp
qed

text \<open>
  The claim as first stated (\<open>C\<close> is \<open>padded\<close> without its first element, for every
  \<open>PlantModel\<close>) fails on Pagina Profesor: for \<open>1 / (s\<^sup>2 + 3 s + 2)\<close> it returns
  \<open>C = [1, 0]\<close>, and \<open>padded\<close> without its first element is \<open>[0, 1]\<close>.
\<close>

theorem plant_model_output_split_counterexample:
  "tfToStateSpace_prof [Fin 1] [Fin 1, Fin 3, Fin 2]
     = Inr \<lparr>ssA = [[Fin 0, Fin 1], [Fin (- 2), Fin (- 3)]], ssB = [Fin 0, Fin 1],
            ssC = [Fin 1, Fin 0], ssD = Fin 0\<rparr>
   \<and> [Fin 1, Fin 0]
     \<noteq> tl (replicate (2 + 1 - length [Fin 1]) (Fin 0) @ map (\<lambda>c. c / Fin 1) [Fin 1])"
  by (simp add: tfToStateSpace_prof_def js_index_def fill_superdiagonal_def fill_bottom_row_def
      unit_last_def Let_def minus_jsnum_def upt_rec numeral_2_eq_2)

subsection \<open>Rejected denominators\<close>

text \<open>The definitions that a run on concrete input unfolds.\<close>

lemmas run_eval = runSimulation_def tfToStateSpace_def js_index_def fill_superdiagonal_def
  fill_bottom_row_def unit_last_def array_length_def init_state_def sim_step_def plant_output_def
  pid_control_def anti_windup_def generateReference_def rungeKutta_def f_deriv_def mapi_def
  js_or_def Let_def minus_jsnum_def upt_rec numeral_2_eq_2 double_round_small

lemma tfToStateSpace_rejects:
  "tfToStateSpace num [] = Inl (Error ''Invalid denominator.'')"
  "tfToStateSpace num (Fin 0 # den)
     = Inl (Error ''Denominator highest order coefficient cannot be zero.'')"
  by (simp_all add: tfToStateSpace_def js_index_def Let_def)

lemma runSimulation_rejects:
  assumes "cfg_denominator cfg = [] \<or> cfg_denominator cfg ! 0 = Fin 0"
  shows "\<exists>e. runSimulation cfg rnd = Inl e"
proof (cases "cfg_denominator cfg")
  case Nil
  then show ?thesis by (simp add: runSimulation_def)
next
  case (Cons d ds)
  with assms have "d = Fin 0" by simp
  with Cons show ?thesis
    by (simp add: runSimulation_def tfToStateSpace_rejects Let_def)
qed

text \<open>
  C4. An empty denominator or a zero leading coefficient must make the conversion fail
  before any model is produced, and abort the run. \<open>tfToStateSpace\<close> of
  Pagina Corregida - copia does so, as the two lemmas above show. \<open>tfToStateSpace\<close> of
  Pagina Profesor has neither check: for the denominator \<open>[0, 1]\<close> it divides by zero,
  returns a model with infinite and NaN entries, and the run goes on to a complete result
  whose output, error and control series are NaN.
\<close>

theorem profesor_accepts_zero_leading_coefficient:
  "tfToStateSpace_prof [Fin 1] [Fin 0, Fin 1]
     = Inr \<lparr>ssA = [[NInf]], ssB = [Fin 1], ssC = [NaN], ssD = Fin 0\<rparr>
   \<and> runSimulation_prof
       \<lparr>cfg_numerator = [Fin 1], cfg_denominator = [Fin 0, Fin 1], cfg_kp = Fin 1,
        cfg_ki = Fin 0, cfg_kd = Fin 0, cfg_simTime = Fin 2, cfg_dt = Fin 1,
        cfg_controlType = ''step'', cfg_amplitude = Fin 1, cfg_frequency = Fin 1,
        cfg_antiWindup = ''none'', cfg_derivativeFilter = ''none'', cfg_disturbance = Fin 0\<rparr>
     = Inr \<lparr>sd_time = [Fin 0, Fin 1], sd_reference = [Fin 1, Fin 1], sd_output = [NaN, NaN],
            sd_error = [NaN, NaN], sd_control = [NaN, NaN]\<rparr>"
  by (simp add: runSimulation_prof_def tfToStateSpace_prof_def sim_step_prof_def
      generateReference_prof_def run_eval)

section \<open>Properties of the Integrator\<close>

lemma js_index_Fin: "i < length xs \<Longrightarrow> js_index (map Fin xs) (int i) = Fin (xs ! i)"
  by (simp add: js_index_def)

lemma foldl_Fin_sum:
  "foldl (\<lambda>res j. res + Fin (g j)) (Fin c) [0 ..< n] = Fin (c + (\<Sum>j<n. g j))"
  by (induction n) (simp_all add: algebra_simps)

lemma mapi_Fin:
  "mapi (\<lambda>v i. g v i) (map Fin xs) = map (\<lambda>i. g (Fin (xs ! i)) i) [0 ..< length xs]"
  by (auto simp: mapi_def intro!: nth_equalityI)

lemma f_deriv_Fin:
  assumes "length x = n" and "n \<le> length A" and "list_all (\<lambda>row. n \<le> length row) A"
    and "n \<le> length B"
  shows "f_deriv (map (map Fin) A) (map Fin B) (Fin u) n (map Fin x)
         = map Fin (spec_derivative A B u x)"
proof -
  have row: "foldl (\<lambda>res j. res + js_index (map (map Fin) A ! i) (int j) * js_index (map Fin x) (int j))
               (Fin 0) [0 ..< n] = Fin (\<Sum>j<n. A ! i ! j * x ! j)" if "i < n" for i
  proof -
    have Ai: "map (map Fin) A ! i = map Fin (A ! i)" and li: "n \<le> length (A ! i)"
      using that assms(2,3) by (simp_all add: list_all_length)
    have "foldl (\<lambda>res j. res + js_index (map Fin (A ! i)) (int j) * js_index (map Fin x) (int j))
               (Fin 0) [0 ..< n]
          = foldl (\<lambda>res j. res + Fin (A ! i ! j) * Fin (x ! j)) (Fin 0) [0 ..< n]"
      using li assms(1) by (intro foldl_cong) (simp_all add: js_index_Fin)
    then show ?thesis
      unfolding Ai by (simp add: foldl_Fin_sum)
  qed
  show ?thesis
    unfolding f_deriv_def spec_derivative_def
    using assms(1,4) by (auto simp: row js_index_Fin)
qed

lemma rungeKutta_Fin:
  assumes "length A = length x" and "list_all (\<lambda>row. length row = length x) A"
    and "length B = length x"
  shows "rungeKutta (map (map Fin) A) (map Fin B) (map Fin x) (Fin u) (Fin dt)
         = Inr (map Fin (spec_rk4 A B x u dt))"
proof -
  let ?n = "length x"
  let ?f = "f_deriv (map (map Fin) A) (map Fin B) (Fin u) (length (map Fin x))"
  let ?dt = "\<lambda>k. map (\<lambda>v. v * dt) k"
  have rows: "list_all (\<lambda>row. ?n \<le> length row) A"
    using assms(2) by (simp add: list_all_length)
  have f: "?f (map Fin y) = map Fin (spec_derivative A B u y)" if "length y = ?n" for y
    using f_deriv_Fin [OF that _ rows] assms(1,3) by simp
  have len: "length (spec_derivative A B u y) = length y" for y
    by (simp add: spec_derivative_def)
  have lax: "length (spec_axpy x c k) = ?n" for c k
    by (simp add: spec_axpy_def)
  have scale: "map (\<lambda>v. v * Fin dt) (map Fin k) = map Fin (?dt k)" for k
    by simp
  have stg: "mapi (\<lambda>v i. v + Fin (5 / 10) * js_index (map Fin (?dt k)) (int i)) (map Fin x)
             = map Fin (spec_axpy x (dt / 2) k)" if "length k = ?n" for k
    using that by (auto simp: mapi_Fin spec_axpy_def js_index_def)
  have stg1: "mapi (\<lambda>v i. v + js_index (map Fin (?dt k)) (int i)) (map Fin x)
             = map Fin (spec_axpy x dt k)" if "length k = ?n" for k
    using that by (auto simp: mapi_Fin spec_axpy_def js_index_def mult.commute)
  let ?k1 = "spec_derivative A B u x"
  let ?k2 = "spec_derivative A B u (spec_axpy x (dt / 2) ?k1)"
  let ?k3 = "spec_derivative A B u (spec_axpy x (dt / 2) ?k2)"
  let ?k4 = "spec_derivative A B u (spec_axpy x dt ?k3)"
  have e1: "map (\<lambda>v. v * Fin dt) (?f (map Fin x)) = map Fin (?dt ?k1)"
    unfolding f [OF refl] scale by (rule refl)
  have e2: "map (\<lambda>v. v * Fin dt)
              (?f (mapi (\<lambda>v i. v + Fin (5 / 10) * js_index (map Fin (?dt ?k1)) (int i)) (map Fin x)))
            = map Fin (?dt ?k2)"
    unfolding stg [OF len] f [OF lax] scale by (rule refl)
  have e3: "map (\<lambda>v. v * Fin dt)
              (?f (mapi (\<lambda>v i. v + Fin (5 / 10) * js_index (map Fin (?dt ?k2)) (int i)) (map Fin x)))
            = map Fin (?dt ?k3)"
    unfolding stg [OF trans [OF len lax]] f [OF lax] scale by (rule refl)
  have e4: "map (\<lambda>v. v * Fin dt)
              (?f (mapi (\<lambda>v i. v + js_index (map Fin (?dt ?k3)) (int i)) (map Fin x)))
            = map Fin (?dt ?k4)"
    unfolding stg1 [OF trans [OF len lax]] f [OF lax] scale by (rule refl)
  have final: "mapi (\<lambda>v i. v + (js_index (map Fin (?dt ?k1)) (int i)
                 + Fin 2 * js_index (map Fin (?dt ?k2)) (int i)
                 + Fin 2 * js_index (map Fin (?dt ?k3)) (int i)
                 + js_index (map Fin (?dt ?k4)) (int i)) / Fin 6) (map Fin x)
        = map Fin (spec_rk4 A B x u dt)"
    by (auto simp: mapi_Fin spec_rk4_def Let_def js_index_def len lax algebra_simps
        add_divide_distrib)
  have "\<not> length (map (map Fin) A) < length (map Fin x)"
    using assms(1) by simp
  then show ?thesis
    unfolding rungeKutta_def Let_def
    by (simp only: if_False e1 e2 e3 e4 final)
qed

lemma pid_body_euler:
  assumes "in_timeStep inp = Fin h" and "h \<noteq> 0"
    and "in_kp inp = Fin kp" and "in_ki inp = Fin ki" and "in_kd inp = Fin kd"
    and "in_setpoint inp = Fin sp"
    and "ps_theta s = Fin th" and "ps_omega s = Fin om"
    and "ps_integralError s = Fin I" and "ps_previousError s = Fin pe"
  shows "\<exists>c. ps_controlSignalHistory (pid_body inp s) = ps_controlSignalHistory s @ [Fin c]
     \<and> ps_omega (pid_body inp s) = Fin (om + (- (98 / 10) * th + c) * h)
     \<and> ps_theta (pid_body inp s) = Fin (th + (om + (- (98 / 10) * th + c) * h) * h)"
  using assms by (simp add: pid_body_def Let_def minus_jsnum_def)

text \<open>
  C3 (amended). For every state-space model \<open>(A, B)\<close> with \<open>A\<close> square of the dimension of
  the state \<open>x\<close> and \<open>B\<close> of that length, all entries finite, every control value \<open>u\<close>
  and every step size \<open>dt\<close> (in particular every \<open>dt > 0\<close>), \<open>rungeKutta\<close> of
  Pagina Corregida - copia and Pagina Profesor returns exactly
  \<open>x + dt/6 \<cdot> (k1 + 2 k2 + 2 k3 + k4)\<close>, where \<open>k1 .. k4\<close> are the derivative
  \<open>f(x) = A\<cdot>x + B\<cdot>u\<close> at \<open>x\<close>, \<open>x + dt/2 \<cdot> k1\<close>, \<open>x + dt/2 \<cdot> k2\<close> and \<open>x + dt \<cdot> k3\<close>.
  The result is a function of the five arguments alone, and the arguments are not written:
  \<open>rungeKutta\<close> builds new arrays only. \<open>simulatePID\<close> of Pagina Corregida has no such
  integrator: each iteration advances its plant \<open>theta'' = -9.8 \<cdot> theta + u\<close> in place, with
  the control value \<open>c\<close> of this iteration, by \<open>omega += (-9.8 \<cdot> theta + c) \<cdot> dt\<close> and then
  \<open>theta += omega \<cdot> dt\<close>.
\<close>

theorem integrator_is_rk4:
  assumes "length A = length x" and "list_all (\<lambda>row. length row = length x) A"
    and "length B = length x"
    and "in_timeStep inp = Fin h" and "h \<noteq> 0"
    and "in_kp inp = Fin kp" and "in_ki inp = Fin ki" and "in_kd inp = Fin kd"
    and "in_setpoint inp = Fin sp"
    and "ps_theta s = Fin th" and "ps_omega s = Fin om"
    and "ps_integralError s = Fin I" and "ps_previousError s = Fin pe"
  shows "rungeKutta (map (map Fin) A) (map Fin B) (map Fin x) (Fin u) (Fin dt)
         = Inr (map Fin (spec_rk4 A B x u dt))
     \<and> (\<exists>c. ps_controlSignalHistory (pid_body inp s) = ps_controlSignalHistory s @ [Fin c]
         \<and> ps_omega (pid_body inp s) = Fin (om + (- (98 / 10) * th + c) * h)
         \<and> ps_theta (pid_body inp s) = Fin (th + (om + (- (98 / 10) * th + c) * h) * h))"
  using rungeKutta_Fin [OF assms(1-3)] pid_body_euler [OF assms(4-13)] by simp

theorem integrator_is_rk4_witness:
  "length [[- 1 :: real]] = length [1 :: real]
   \<and> list_all (\<lambda>row. length row = length [1 :: real]) [[- 1 :: real]]
   \<and> length [0 :: real] = length [1 :: real]
   \<and> rungeKutta [[Fin (- 1)]] [Fin 0] [Fin 1] (Fin 0) (Fin (1 / 100))
       = Inr [Fin (792039867 / 800000000)]
   \<and> ps_controlSignalHistory
        (pid_body \<lparr>in_kp = Fin 1, in_ki = Fin 0, in_kd = Fin 0, in_setpoint = Fin 1,
                   in_timeStep = Fin 1, in_simulationTime = Fin 2\<rparr> pid_reset) = [Fin 1]
   \<and> ps_omega
        (pid_body \<lparr>in_kp = Fin 1, in_ki = Fin 0, in_kd = Fin 0, in_setpoint = Fin 1,
                   in_timeStep = Fin 1, in_simulationTime = Fin 2\<rparr> pid_reset) = Fin 1
   \<and> ps_theta
        (pid_body \<lparr>in_kp = Fin 1, in_ki = Fin 0, in_kd = Fin 0, in_setpoint = Fin 1,
                   in_timeStep = Fin 1, in_simulationTime = Fin 2\<rparr> pid_reset) = Fin 1"
  using integrator_is_rk4 [of "[[- 1]]" "[1]" "[0]"
      "\<lparr>in_kp = Fin 1, in_ki = Fin 0, in_kd = Fin 0, in_setpoint = Fin 1,
        in_timeStep = Fin 1, in_simulationTime = Fin 2\<rparr>" 1 1 0 0 1 pid_reset 0 0 0 0 0 "1 / 100"]
  by (simp add: spec_rk4_def spec_derivative_def spec_axpy_def Let_def pid_reset_def
      pid_body_def minus_jsnum_def)

text \<open>
  The claim as first stated (every integrator of the repository computes the Runge-Kutta
  update) fails on \<open>simulatePID\<close>: from rest, with control value 1 and time step 1, it
  moves the plant to \<open>theta = 1\<close>, \<open>omega = 1\<close>, and the Runge-Kutta update of the same
  plant, \<open>A = [[0, 1], [-9.8, 0]]\<close> and \<open>B = [0, 1]\<close>, is \<open>[11/120, -19/30]\<close>.
\<close>

theorem integrator_is_rk4_counterexample:
  "ps_theta
     (pid_body \<lparr>in_kp = Fin 1, in_ki = Fin 0, in_kd = Fin 0, in_setpoint = Fin 1,
                in_timeStep = Fin 1, in_simulationTime = Fin 2\<rparr> pid_reset) = Fin 1
   \<and> ps_omega
     (pid_body \<lparr>in_kp = Fin 1, in_ki = Fin 0, in_kd = Fin 0, in_setpoint = Fin 1,
                in_timeStep = Fin 1, in_simulationTime = Fin 2\<rparr> pid_reset) = Fin 1
   \<and> ps_controlSignalHistory
     (pid_body \<lparr>in_kp = Fin 1, in_ki = Fin 0, in_kd = Fin 0, in_setpoint = Fin 1,
                in_timeStep = Fin 1, in_simulationTime = Fin 2\<rparr> pid_reset) = [Fin 1]
   \<and> spec_rk4 [[0, 1], [- (98 / 10), 0]] [0, 1] [0, 0] 1 1 = [11 / 120, - (19 / 30)]"
  by (simp add: pid_body_def pid_reset_def Let_def minus_jsnum_def spec_rk4_def
      spec_derivative_def spec_axpy_def lessThan_Suc numeral_2_eq_2 upt_rec)


section \<open>Properties of the Controller\<close>

lemma anti_windup_back_correction:
  shows "Fin 5 < u \<Longrightarrow> anti_windup ki u integral = (Fin 5, integral - (u - Fin 5) / ki)"
    and "u < Fin (- 5) \<Longrightarrow> anti_windup ki u integral = (Fin (- 5), integral - (u - Fin (- 5)) / ki)"
  by (cases u; auto simp: anti_windup_def Let_def)+

text \<open>
  C5. In anti-windup mode \<open>clamping\<close>, when the unclamped output is outside the bounds
  the integral is corrected by \<open>(unclamped - clamped) / Ki\<close> (the lemma above), and for
  \<open>Ki = 0\<close> the correction should be skipped. The code has no such guard: with \<open>Ki = 0\<close>,
  \<open>Kp = 10\<close> and an error of 1 the unclamped output is 10, the correction is \<open>5 / 0\<close>,
  and the integral becomes \<open>-Infinity\<close>.
\<close>

theorem back_correction_divides_by_zero:
  "anti_windup (Fin 0) (Fin 10) (Fin (1 / 100)) = (Fin 5, NInf)
   \<and> pid_control
       \<lparr>cfg_numerator = [Fin 1], cfg_denominator = [Fin 1, Fin 1], cfg_kp = Fin 10,
        cfg_ki = Fin 0, cfg_kd = Fin 0, cfg_simTime = Fin 2, cfg_dt = Fin (1 / 100),
        cfg_controlType = ''step'', cfg_amplitude = Fin 1, cfg_frequency = Fin 1,
        cfg_antiWindup = ''clamping'', cfg_derivativeFilter = ''none'',
        cfg_disturbance = Fin 0\<rparr> 0 (Fin 1) (Fin 0) (Fin 0) (Fin 0)
     = (Fin 5, NInf, Fin 0)"
  by (simp add: pid_control_def anti_windup_def Let_def minus_jsnum_def)

section \<open>Properties of the SimulationEngine\<close>

subsection \<open>Step count and series\<close>

lemma rungeKutta_ok:
  "length x \<le> length A \<Longrightarrow> \<exists>x'. rungeKutta A B x u dt = Inr x' \<and> length x' = length x"
  by (simp add: rungeKutta_def mapi_def Let_def)

lemma sim_step_ok:
  assumes "length (st_x s) \<le> length (ssA ss)"
  shows "\<exists>s'. sim_step cfg ss time rnd i s = Inr s'
           \<and> length (st_x s') = length (st_x s)
           \<and> length (st_reference s') = length (st_reference s)
           \<and> length (st_output s') = length (st_output s)
           \<and> length (st_error s') = length (st_error s)
           \<and> length (st_control s') = length (st_control s)"
proof -
  obtain u integral fd where pid: "pid_control cfg i
      (js_index ((st_reference s)[i := generateReference (js_index time (int i))
           (cfg_controlType cfg) (cfg_amplitude cfg) (cfg_frequency cfg)]) (int i)
       - js_index ((st_output s)[i := plant_output ss (st_x s) (st_control s) i
           + (Fin (rnd i) - Fin 0.5) * Fin 2 * cfg_disturbance cfg]) (int i))
      (st_integral s) (st_prevError s) (st_filteredDerivative s) = (u, integral, fd)"
    by (metis prod_cases3)
  obtain x' where "rungeKutta (ssA ss) (ssB ss) (st_x s) u (cfg_dt cfg) = Inr x'"
      "length x' = length (st_x s)"
    using rungeKutta_ok [OF assms] by blast
  then show ?thesis
    unfolding sim_step_def Let_def pid by simp
qed

lemma sim_loop_ok:
  assumes "length (st_x s) \<le> length (ssA ss)"
  shows "\<exists>s'. sim_loop k i cfg ss time rnd s = Inr s'
           \<and> length (st_x s') = length (st_x s)
           \<and> length (st_reference s') = length (st_reference s)
           \<and> length (st_output s') = length (st_output s)
           \<and> length (st_error s') = length (st_error s)
           \<and> length (st_control s') = length (st_control s)"
  using assms
proof (induction k arbitrary: i s)
  case 0
  then show ?case by simp
next
  case (Suc k)
  from sim_step_ok [OF Suc.prems, of cfg time rnd i]
  obtain s1 where s1: "sim_step cfg ss time rnd i s = Inr s1"
      "length (st_x s1) = length (st_x s)"
      "length (st_reference s1) = length (st_reference s)"
      "length (st_output s1) = length (st_output s)"
      "length (st_error s1) = length (st_error s)"
      "length (st_control s1) = length (st_control s)"
    by blast
  then have "length (st_x s1) \<le> length (ssA ss)"
    using Suc.prems by simp
  from Suc.IH [OF this, of "Suc i"] s1 show ?case
    by auto
qed

text \<open>Iteration \<open>i\<close> writes element \<open>i\<close> of the four arrays and no other element.\<close>

lemma sim_step_entries:
  assumes "sim_step cfg ss time rnd i s = Inr s'"
  shows "st_reference s' = (st_reference s)
           [i := generateReference (js_index time (int i)) (cfg_controlType cfg)
                   (cfg_amplitude cfg) (cfg_frequency cfg)]"
    and "st_output s' = (st_output s)
           [i := plant_output ss (st_x s) (st_control s) i
                 + (Fin (rnd i) - Fin 0.5) * Fin 2 * cfg_disturbance cfg]"
    and "st_error s' = (st_error s)
           [i := js_index (st_reference s') (int i) - js_index (st_output s') (int i)]"
    and "st_control s' = (st_control s)
           [i := fst (pid_control cfg i
                   (js_index (st_reference s') (int i) - js_index (st_output s') (int i))
                   (st_integral s) (st_prevError s) (st_filteredDerivative s))]"
  using assms unfolding sim_step_def Let_def
  by (auto split: prod.splits sum.splits)

lemma sim_loop_frame:
  assumes "sim_loop k j cfg ss time rnd s = Inr s'" and "m < j"
  shows "st_reference s' ! m = st_reference s ! m \<and> st_output s' ! m = st_output s ! m
     \<and> st_error s' ! m = st_error s ! m \<and> st_control s' ! m = st_control s ! m"
  using assms
proof (induction k arbitrary: j s)
  case 0
  then show ?case by simp
next
  case (Suc k)
  from Suc.prems(1) obtain s1 where s1: "sim_step cfg ss time rnd j s = Inr s1"
      "sim_loop k (Suc j) cfg ss time rnd s1 = Inr s'"
    by (auto split: sum.splits)
  have neq: "j \<noteq> m"
    using Suc.prems(2) by simp
  have "st_reference s1 ! m = st_reference s ! m" "st_output s1 ! m = st_output s ! m"
      "st_error s1 ! m = st_error s ! m" "st_control s1 ! m = st_control s ! m"
    using neq
    by (simp_all only: sim_step_entries [OF s1(1)] nth_list_update_neq not_False_eq_True)
  moreover have "m < Suc j"
    using Suc.prems(2) by simp
  ultimately show ?case
    using Suc.IH [OF s1(2)] by simp
qed

lemma sim_loop_split:
  "sim_loop (a + b) i cfg ss time rnd s =
     (case sim_loop a i cfg ss time rnd s of
        Inl e \<Rightarrow> Inl e
      | Inr s1 \<Rightarrow> sim_loop b (i + a) cfg ss time rnd s1)"
  by (induction a arbitrary: i s) (simp_all split: sum.splits)

text \<open>
  After the loop, element \<open>i\<close> of each array is the value that iteration \<open>i\<close> computed
  from the state \<open>s\<close> left by the \<open>i\<close> iterations before it.
\<close>

lemma sim_loop_entries:
  assumes x: "length (st_x s0) \<le> length (ssA ss)"
    and len: "length (st_reference s0) = n" "length (st_output s0) = n"
      "length (st_error s0) = n" "length (st_control s0) = n" "length time = n"
    and run: "sim_loop n 0 cfg ss time rnd s0 = Inr sf"
    and i: "i < n"
  shows "\<exists>s. sim_loop i 0 cfg ss time rnd s0 = Inr s
     \<and> st_reference sf ! i = generateReference (time ! i) (cfg_controlType cfg)
          (cfg_amplitude cfg) (cfg_frequency cfg)
     \<and> st_output sf ! i = plant_output ss (st_x s) (st_control s) i
          + (Fin (rnd i) - Fin 0.5) * Fin 2 * cfg_disturbance cfg
     \<and> st_error sf ! i = st_reference sf ! i - st_output sf ! i
     \<and> st_control sf ! i = fst (pid_control cfg i (st_error sf ! i)
          (st_integral s) (st_prevError s) (st_filteredDerivative s))"
proof -
  from sim_loop_ok [OF x, of i 0 cfg time rnd]
  obtain s where s: "sim_loop i 0 cfg ss time rnd s0 = Inr s"
      "length (st_x s) = length (st_x s0)"
      "length (st_reference s) = n" "length (st_output s) = n"
      "length (st_error s) = n" "length (st_control s) = n"
    using len by auto
  have n: "n = i + Suc (n - Suc i)"
    using i by simp
  have "sim_loop (Suc (n - Suc i)) i cfg ss time rnd s = Inr sf"
    using run s(1) sim_loop_split [of i "Suc (n - Suc i)" 0 cfg ss time rnd s0]
    unfolding n [symmetric] by simp
  then obtain s1 where s1: "sim_step cfg ss time rnd i s = Inr s1"
      "sim_loop (n - Suc i) (Suc i) cfg ss time rnd s1 = Inr sf"
    by (auto split: sum.splits)
  have keep: "st_reference sf ! i = st_reference s1 ! i" "st_output sf ! i = st_output s1 ! i"
      "st_error sf ! i = st_error s1 ! i" "st_control sf ! i = st_control s1 ! i"
    using sim_loop_frame [OF s1(2), of i] by simp_all
  have t: "js_index time (int i) = time ! i"
    using i len(5) by (simp add: js_index_def)
  have ref: "st_reference s1 ! i = generateReference (time ! i) (cfg_controlType cfg)
          (cfg_amplitude cfg) (cfg_frequency cfg)"
    unfolding sim_step_entries(1) [OF s1(1)] t using i s(3) by simp
  have out: "st_output s1 ! i = plant_output ss (st_x s) (st_control s) i
          + (Fin (rnd i) - Fin 0.5) * Fin 2 * cfg_disturbance cfg"
    unfolding sim_step_entries(2) [OF s1(1)] using i s(4) by simp
  have len1: "i < length (st_reference s1)" "i < length (st_output s1)"
    unfolding sim_step_entries(1,2) [OF s1(1)] using i s(3,4) by simp_all
  have idx: "js_index (st_reference s1) (int i) = st_reference s1 ! i"
      "js_index (st_output s1) (int i) = st_output s1 ! i"
    using len1 by (simp_all add: js_index_def)
  have err: "st_error s1 ! i = st_reference s1 ! i - st_output s1 ! i"
    unfolding sim_step_entries(3) [OF s1(1)] idx using i s(5) by simp
  have ctl: "st_control s1 ! i = fst (pid_control cfg i (st_error s1 ! i)
          (st_integral s) (st_prevError s) (st_filteredDerivative s))"
    unfolding err unfolding sim_step_entries(4) [OF s1(1)] idx using i s(6) by simp
  show ?thesis
    using s(1) ref out err ctl unfolding keep by blast
qed

lemma array_length_floor:
  assumes "0 \<le> q" and "q \<le> 2 ^ 32 - 1"
  shows "array_length (Math_floor (Fin q)) = Inr (nat \<lfloor>q\<rfloor>)"
proof -
  have "\<not> (of_int \<lfloor>q\<rfloor> :: real) < 0"
    using assms(1) by simp
  moreover have "(of_int \<lfloor>q\<rfloor> :: real) \<le> q"
    by simp
  then have "\<not> 2 ^ 32 \<le> (of_int \<lfloor>q\<rfloor> :: real)"
    using assms(2) by linarith
  ultimately show ?thesis
    by (simp add: array_length_def)
qed

text \<open>The loop of \<open>simulatePID\<close> applies its body \<open>\<lceil>r\<rceil>\<close> times, and every application
  appends one element to each history.\<close>

lemma pid_loop_funpow:
  "i \<le> nat \<lceil>r\<rceil> \<Longrightarrow> pid_loop r inp i s = (pid_body inp ^^ (nat \<lceil>r\<rceil> - i)) s"
proof (induction r inp i s rule: pid_loop.induct)
  case (1 r inp i s)
  show ?case
  proof (cases "real i < r")
    case True
    then have le: "Suc i \<le> nat \<lceil>r\<rceil>"
      by linarith
    have "pid_loop r inp i s = pid_loop r inp (Suc i) (pid_body inp s)"
      using True by (subst pid_loop.simps) simp
    also have "\<dots> = (pid_body inp ^^ (nat \<lceil>r\<rceil> - Suc i)) (pid_body inp s)"
      by (rule "1.IH" [OF True le])
    also have "\<dots> = (pid_body inp ^^ Suc (nat \<lceil>r\<rceil> - Suc i)) s"
      by (simp only: funpow_Suc_right comp_apply)
    also have "Suc (nat \<lceil>r\<rceil> - Suc i) = nat \<lceil>r\<rceil> - i"
      using le by simp
    finally show ?thesis .
  next
    case False
    then have "i = nat \<lceil>r\<rceil>"
      using "1.prems" by linarith
    then show ?thesis
      using False by (subst pid_loop.simps) simp
  qed
qed

lemma pid_body_push:
  "ps_time (pid_body inp s) = rounded (ps_time s + in_timeStep inp)"
  "ps_timeHistory (pid_body inp s) = ps_timeHistory s @ [ps_time (pid_body inp s)]"
  "ps_systemOutputHistory (pid_body inp s)
     = ps_systemOutputHistory s @ [ps_theta (pid_body inp s)]"
  "ps_controlSignalHistory (pid_body inp s)
     = ps_controlSignalHistory s @ [last (ps_controlSignalHistory (pid_body inp s))]"
  "ps_referenceSignalHistory (pid_body inp s) = ps_referenceSignalHistory s @ [in_setpoint inp]"
  by (simp_all add: pid_body_def Let_def)

lemma pid_iterates:
  "ps_time ((pid_body inp ^^ k) pid_reset)
     = ((\<lambda>t. rounded (t + in_timeStep inp)) ^^ k) (Fin 0)
   \<and> ps_timeHistory ((pid_body inp ^^ k) pid_reset)
     = map (\<lambda>i. ((\<lambda>t. rounded (t + in_timeStep inp)) ^^ Suc i) (Fin 0)) [0 ..< k]
   \<and> ps_systemOutputHistory ((pid_body inp ^^ k) pid_reset)
     = map (\<lambda>i. ps_theta ((pid_body inp ^^ Suc i) pid_reset)) [0 ..< k]
   \<and> ps_controlSignalHistory ((pid_body inp ^^ k) pid_reset)
     = map (\<lambda>i. last (ps_controlSignalHistory ((pid_body inp ^^ Suc i) pid_reset))) [0 ..< k]
   \<and> ps_referenceSignalHistory ((pid_body inp ^^ k) pid_reset)
     = map (\<lambda>i. in_setpoint inp) [0 ..< k]"
proof (induction k)
  case 0
  show ?case
    by (simp add: pid_reset_def)
next
  case (Suc k)
  let ?s = "(pid_body inp ^^ k) pid_reset"
  have step: "(pid_body inp ^^ Suc k) pid_reset = pid_body inp ?s"
    by simp
  have time: "ps_time (pid_body inp ?s)
      = ((\<lambda>t. rounded (t + in_timeStep inp)) ^^ Suc k) (Fin 0)"
    using Suc.IH by (simp add: pid_body_push(1))
  show ?case
    unfolding step
    apply (subst pid_body_push(2), subst pid_body_push(3), subst pid_body_push(4),
        subst pid_body_push(5))
    using Suc.IH time by (simp add: step)
qed

lemma list_ex_isNaN: "list_all (\<lambda>c. \<not> isNaN c) xs \<Longrightarrow> \<not> list_ex isNaN xs"
  by (induction xs) simp_all

text \<open>
  C6 (amended). Let \<open>q\<close> be the quotient \<open>duration / dt\<close> as the program computes it, that
  is, rounded to a double. For every configuration with \<open>dt > 0\<close>, \<open>duration > 0\<close>,
  \<open>q\<close> at most \<open>2^32 - 1\<close> and a valid plant (coefficients that are numbers, a numerator
  that is not empty and no longer than the denominator, a leading denominator coefficient
  that is not zero), \<open>runSimulation\<close> of Pagina Corregida - copia executes exactly
  \<open>floor(q)\<close> steps: step \<open>i\<close> starts in the state \<open>s\<close> left by the \<open>i\<close> steps before it,
  its time is \<open>i \<cdot> dt\<close> rounded to a double, and the final series hold at index \<open>i\<close> this
  time, the reference at this time, the output computed from \<open>s\<close>, the error
  \<open>reference - output\<close> and the control value computed from this error and \<open>s\<close>; the
  time, reference, output, error and control series all have length \<open>floor(q)\<close>.
  \<open>simulatePID\<close> of Pagina Corregida, for finite gains and setpoint, executes exactly
  \<open>ceiling(q)\<close> iterations (its loop runs while \<open>i < q\<close>): its final state is the loop
  body applied \<open>ceiling(q)\<close> times to the reset state, iteration \<open>i\<close> appends to the time
  series the sum of \<open>i + 1\<close> time steps, added one by one and rounded at each addition,
  and to the output, control and reference series the values of that iteration; the four
  series (it keeps no error series) all have length \<open>ceiling(q)\<close>.
\<close>

theorem engine_step_count:
  assumes "cfg_simTime cfg = Fin T" and "cfg_dt cfg = Fin h" and "0 < h" and "0 < T"
    and "double_round (T / h) = Fin q" and "q \<le> 2 ^ 32 - 1"
    and "cfg_numerator cfg \<noteq> []"
    and "list_all (\<lambda>c. \<not> isNaN c) (cfg_numerator cfg)"
    and "list_all (\<lambda>c. \<not> isNaN c) (cfg_denominator cfg)"
    and "length (cfg_denominator cfg) = n + 1"
    and "cfg_denominator cfg ! 0 \<noteq> Fin 0"
    and "length (cfg_numerator cfg) \<le> n + 1"
    and "in_timeStep inp = Fin h" and "in_simulationTime inp = Fin T"
    and "isFinite (in_kp inp)" and "isFinite (in_ki inp)" and "isFinite (in_kd inp)"
    and "isFinite (in_setpoint inp)"
  shows "\<exists>ss r p.
       tfToStateSpace (cfg_numerator cfg) (cfg_denominator cfg) = Inr ss
     \<and> runSimulation cfg rnd = Inr r
     \<and> length (sd_time r) = nat \<lfloor>q\<rfloor> \<and> length (sd_reference r) = nat \<lfloor>q\<rfloor>
     \<and> length (sd_output r) = nat \<lfloor>q\<rfloor> \<and> length (sd_error r) = nat \<lfloor>q\<rfloor>
     \<and> length (sd_control r) = nat \<lfloor>q\<rfloor>
     \<and> (\<forall>i < nat \<lfloor>q\<rfloor>. \<exists>s.
           sim_loop i 0 cfg ss (sd_time r) rnd (init_state ss (nat \<lfloor>q\<rfloor>)) = Inr s
         \<and> sd_time r ! i = rounded (Fin (real i) * Fin h)
         \<and> sd_reference r ! i = generateReference (sd_time r ! i) (cfg_controlType cfg)
              (cfg_amplitude cfg) (cfg_frequency cfg)
         \<and> sd_output r ! i = plant_output ss (st_x s) (st_control s) i
              + (Fin (rnd i) - Fin 0.5) * Fin 2 * cfg_disturbance cfg
         \<and> sd_error r ! i = sd_reference r ! i - sd_output r ! i
         \<and> sd_control r ! i = fst (pid_control cfg i (sd_error r ! i)
              (st_integral s) (st_prevError s) (st_filteredDerivative s)))
     \<and> simulatePID inp = Inr p
     \<and> p = (pid_body inp ^^ nat \<lceil>q\<rceil>) pid_reset
     \<and> length (ps_timeHistory p) = nat \<lceil>q\<rceil>
     \<and> length (ps_referenceSignalHistory p) = nat \<lceil>q\<rceil>
     \<and> length (ps_systemOutputHistory p) = nat \<lceil>q\<rceil>
     \<and> length (ps_controlSignalHistory p) = nat \<lceil>q\<rceil>
     \<and> (\<forall>i < nat \<lceil>q\<rceil>.
           ps_timeHistory p ! i = ((\<lambda>t. rounded (t + Fin h)) ^^ Suc i) (Fin 0)
         \<and> ps_referenceSignalHistory p ! i = in_setpoint inp
         \<and> ps_systemOutputHistory p ! i = ps_theta ((pid_body inp ^^ Suc i) pid_reset)
         \<and> ps_controlSignalHistory p ! i
             = last (ps_controlSignalHistory ((pid_body inp ^^ Suc i) pid_reset)))"
proof -
  let ?num = "cfg_numerator cfg" and ?den = "cfg_denominator cfg"
  let ?steps = "nat \<lfloor>q\<rfloor>" and ?iters = "nat \<lceil>q\<rceil>"
  let ?time = "map (\<lambda>i. rounded (Fin (real i) * cfg_dt cfg)) [0 ..< ?steps]"
  have q0: "0 \<le> q"
    using double_round_sign [OF assms(5)] assms(3,4) by simp
  have quot: "rounded (cfg_simTime cfg / cfg_dt cfg) = Fin q"
    using assms(1-3,5) by simp
  have guard: "\<not> (length ?den = 0 \<or> length ?num = 0 \<or> list_ex isNaN ?den \<or> list_ex isNaN ?num)"
    using assms(7-10) by (simp add: list_ex_isNaN)
  obtain ss where ss: "tfToStateSpace ?num ?den = Inr ss" "length (ssA ss) = n"
    using tfToStateSpace_proper [OF assms(10-12)] by simp
  have steps: "array_length (Math_floor (rounded (cfg_simTime cfg / cfg_dt cfg))) = Inr ?steps"
    unfolding quot by (rule array_length_floor [OF q0 assms(6)])
  let ?s0 = "init_state ss ?steps"
  have x0: "length (st_x ?s0) \<le> length (ssA ss)"
    by (simp add: init_state_def)
  have len0: "length (st_reference ?s0) = ?steps" "length (st_output ?s0) = ?steps"
      "length (st_error ?s0) = ?steps" "length (st_control ?s0) = ?steps"
      "length ?time = ?steps"
    by (simp_all add: init_state_def)
  obtain sf where sf: "sim_loop ?steps 0 cfg ss ?time rnd ?s0 = Inr sf"
      "length (st_reference sf) = ?steps" "length (st_output sf) = ?steps"
      "length (st_error sf) = ?steps" "length (st_control sf) = ?steps"
    using sim_loop_ok [OF x0, of ?steps 0 cfg ?time rnd] len0 by auto
  let ?r = "\<lparr>sd_time = ?time, sd_reference = st_reference sf, sd_output = st_output sf,
             sd_error = st_error sf, sd_control = st_control sf\<rparr>"
  have run: "runSimulation cfg rnd = Inr ?r"
    unfolding runSimulation_def Let_def using guard ss(1) steps sf(1) by simp
  have entries: "\<forall>i < ?steps. \<exists>s. sim_loop i 0 cfg ss (sd_time ?r) rnd ?s0 = Inr s
         \<and> sd_time ?r ! i = rounded (Fin (real i) * Fin h)
         \<and> sd_reference ?r ! i = generateReference (sd_time ?r ! i) (cfg_controlType cfg)
              (cfg_amplitude cfg) (cfg_frequency cfg)
         \<and> sd_output ?r ! i = plant_output ss (st_x s) (st_control s) i
              + (Fin (rnd i) - Fin 0.5) * Fin 2 * cfg_disturbance cfg
         \<and> sd_error ?r ! i = sd_reference ?r ! i - sd_output ?r ! i
         \<and> sd_control ?r ! i = fst (pid_control cfg i (sd_error ?r ! i)
              (st_integral s) (st_prevError s) (st_filteredDerivative s))"
  proof (intro allI impI)
    fix i
    assume i: "i < ?steps"
    have t: "?time ! i = rounded (Fin (real i) * Fin h)"
      using i assms(2) by simp
    from sim_loop_entries [OF x0 len0 sf(1) i] t
    show "\<exists>s. sim_loop i 0 cfg ss (sd_time ?r) rnd ?s0 = Inr s
         \<and> sd_time ?r ! i = rounded (Fin (real i) * Fin h)
         \<and> sd_reference ?r ! i = generateReference (sd_time ?r ! i) (cfg_controlType cfg)
              (cfg_amplitude cfg) (cfg_frequency cfg)
         \<and> sd_output ?r ! i = plant_output ss (st_x s) (st_control s) i
              + (Fin (rnd i) - Fin 0.5) * Fin 2 * cfg_disturbance cfg
         \<and> sd_error ?r ! i = sd_reference ?r ! i - sd_output ?r ! i
         \<and> sd_control ?r ! i = fst (pid_control cfg i (sd_error ?r ! i)
              (st_integral s) (st_prevError s) (st_filteredDerivative s))"
      by (simp only: simulationData.simps simp_thms)
  qed
  have bound: "\<not> 2 ^ 32 - 1 < q"
    using assms(6) by simp
  have pid: "simulatePID inp = Inr (pid_loop q inp 0 pid_reset)"
    using assms(3,4,13-18) assms(5) bound by (simp add: simulatePID_def)
  let ?p = "(pid_body inp ^^ ?iters) pid_reset"
  have loop: "pid_loop q inp 0 pid_reset = ?p"
    using pid_loop_funpow [of 0 q inp pid_reset] by simp
  note it = pid_iterates [where inp = inp and k = ?iters, unfolded assms(13)]
  have hist: "length (ps_timeHistory ?p) = ?iters" "length (ps_referenceSignalHistory ?p) = ?iters"
      "length (ps_systemOutputHistory ?p) = ?iters" "length (ps_controlSignalHistory ?p) = ?iters"
    using it by simp_all
  have pushed: "\<forall>i < ?iters.
           ps_timeHistory ?p ! i = ((\<lambda>t. rounded (t + Fin h)) ^^ Suc i) (Fin 0)
         \<and> ps_referenceSignalHistory ?p ! i = in_setpoint inp
         \<and> ps_systemOutputHistory ?p ! i = ps_theta ((pid_body inp ^^ Suc i) pid_reset)
         \<and> ps_controlSignalHistory ?p ! i
             = last (ps_controlSignalHistory ((pid_body inp ^^ Suc i) pid_reset))"
    using it by simp
  show ?thesis
    apply (rule exI [of _ ss], rule exI [of _ ?r], rule exI [of _ ?p])
    unfolding pid loop
    using ss(1) run sf(2-5) len0(5) entries hist pushed
    by (simp only: simulationData.simps simp_thms)
qed

text \<open>
  The claim as first stated fails on \<open>simulatePID\<close>: with time step 1 and duration 2.5
  (the quotient is 2.5, a double) it runs three steps, not \<open>floor(2.5) = 2\<close>, and its
  first time entry is 1, not \<open>0 \<cdot> dt\<close>.
\<close>

theorem engine_step_count_counterexample:
  "(\<exists>p. simulatePID \<lparr>in_kp = Fin 1, in_ki = Fin (1 / 2), in_kd = Fin (1 / 4), in_setpoint = Fin 1,
                in_timeStep = Fin 1, in_simulationTime = Fin (5 / 2)\<rparr> = Inr p
      \<and> ps_timeHistory p = [Fin 1, Fin 2, Fin 3]
      \<and> length (ps_referenceSignalHistory p) = 3 \<and> length (ps_systemOutputHistory p) = 3
      \<and> length (ps_controlSignalHistory p) = 3)
   \<and> rounded (Fin (5 / 2) / Fin 1) = Fin (5 / 2)
   \<and> nat \<lfloor>5 / 2 :: real\<rfloor> = 2
   \<and> [Fin 1, Fin 2, Fin 3] ! 0 \<noteq> rounded (Fin 0 * Fin 1)"
  by (simp add: simulatePID_def pid_loop.simps pid_body_def pid_reset_def Let_def minus_jsnum_def
      double_round_small)

text \<open>
  An instance with the duration 0.3 and the time step 0.1 as \<open>parseFloat\<close> reads them:
  the quotient is \<open>2.9999999999999996\<close>, \<open>runSimulation\<close> runs two steps, at the times 0
  and 0.1, and \<open>simulatePID\<close> runs three, at the times 0.1, 0.2 and
  \<open>0.30000000000000004\<close>.
\<close>

theorem engine_step_count_witness:
  "cfg_simTime
     \<lparr>cfg_numerator = [Fin 1], cfg_denominator = [Fin 1, Fin 1], cfg_kp = Fin 2,
      cfg_ki = Fin 1, cfg_kd = Fin 0, cfg_simTime = Fin (5404319552844595 / 2 ^ 54),
      cfg_dt = Fin (3602879701896397 / 2 ^ 55),
      cfg_controlType = ''step'', cfg_amplitude = Fin 1, cfg_frequency = Fin 1,
      cfg_antiWindup = ''clamping'', cfg_derivativeFilter = ''firstOrder'',
      cfg_disturbance = Fin 0\<rparr> = Fin (5404319552844595 / 2 ^ 54)
   \<and> (0 :: real) < 3602879701896397 / 2 ^ 55 \<and> (0 :: real) < 5404319552844595 / 2 ^ 54
   \<and> double_round ((5404319552844595 / 2 ^ 54) / (3602879701896397 / 2 ^ 55))
       = Fin (6755399441055743 / 2 ^ 51)
   \<and> (6755399441055743 / 2 ^ 51 :: real) \<le> 2 ^ 32 - 1
   \<and> nat \<lfloor>6755399441055743 / 2 ^ 51 :: real\<rfloor> = 2
   \<and> nat \<lceil>6755399441055743 / 2 ^ 51 :: real\<rceil> = 3
   \<and> (\<exists>r p.
         runSimulation
           \<lparr>cfg_numerator = [Fin 1], cfg_denominator = [Fin 1, Fin 1], cfg_kp = Fin 2,
            cfg_ki = Fin 1, cfg_kd = Fin 0, cfg_simTime = Fin (5404319552844595 / 2 ^ 54),
            cfg_dt = Fin (3602879701896397 / 2 ^ 55),
            cfg_controlType = ''step'', cfg_amplitude = Fin 1, cfg_frequency = Fin 1,
            cfg_antiWindup = ''clamping'', cfg_derivativeFilter = ''firstOrder'',
            cfg_disturbance = Fin 0\<rparr> (\<lambda>i. 0) = Inr r
       \<and> sd_time r = [Fin 0, Fin (3602879701896397 / 2 ^ 55)]
       \<and> sd_reference r = [Fin 1, Fin 1]
       \<and> length (sd_output r) = 2 \<and> length (sd_error r) = 2 \<and> length (sd_control r) = 2
       \<and> sd_output r ! 0 = Fin 0 \<and> sd_error r ! 0 = Fin 1
       \<and> simulatePID
           \<lparr>in_kp = Fin 1, in_ki = Fin (1 / 2), in_kd = Fin (1 / 4), in_setpoint = Fin 1,
            in_timeStep = Fin (3602879701896397 / 2 ^ 55),
            in_simulationTime = Fin (5404319552844595 / 2 ^ 54)\<rparr> = Inr p
       \<and> ps_timeHistory p = [Fin (3602879701896397 / 2 ^ 55), Fin (3602879701896397 / 2 ^ 54),
                              Fin (1351079888211149 / 2 ^ 52)]
       \<and> ps_referenceSignalHistory p = [Fin 1, Fin 1, Fin 1]
       \<and> length (ps_systemOutputHistory p) = 3 \<and> length (ps_controlSignalHistory p) = 3)"
proof -
  let ?h = "3602879701896397 / 2 ^ 55 :: real"
  let ?T = "5404319552844595 / 2 ^ 54 :: real"
  let ?q = "6755399441055743 / 2 ^ 51 :: real"
  let ?cfg = "\<lparr>cfg_numerator = [Fin 1], cfg_denominator = [Fin 1, Fin 1], cfg_kp = Fin 2,
      cfg_ki = Fin 1, cfg_kd = Fin 0, cfg_simTime = Fin ?T, cfg_dt = Fin ?h,
      cfg_controlType = ''step'', cfg_amplitude = Fin 1, cfg_frequency = Fin 1,
      cfg_antiWindup = ''clamping'', cfg_derivativeFilter = ''firstOrder'',
      cfg_disturbance = Fin 0\<rparr>"
  let ?inp = "\<lparr>in_kp = Fin 1, in_ki = Fin (1 / 2), in_kd = Fin (1 / 4), in_setpoint = Fin 1,
      in_timeStep = Fin ?h, in_simulationTime = Fin ?T\<rparr>"
  have q: "double_round (?T / ?h) = Fin ?q"
    by (subst double_round_eval [where j = 51]) (simp_all add: round_even_def Let_def)
  have fl: "nat \<lfloor>?q\<rfloor> = 2" and ce: "nat \<lceil>?q\<rceil> = 3"
    by simp_all
  have t1: "double_round ?h = Fin ?h"
    by (subst double_round_eval [where j = 56]) (simp_all add: round_even_def Let_def)
  have t2: "double_round (?h + ?h) = Fin (3602879701896397 / 2 ^ 54)"
    by (subst double_round_eval [where j = 55]) (simp_all add: round_even_def Let_def)
  have t3: "double_round (3602879701896397 / 2 ^ 54 + ?h) = Fin (1351079888211149 / 2 ^ 52)"
    by (subst double_round_eval [where j = 54]) (simp_all add: round_even_def Let_def)
  have two: "xs = [xs ! 0, xs ! 1]" if "length xs = 2" for xs :: "'a list"
    using that by (auto intro!: nth_equalityI simp: less_Suc_eq numeral_2_eq_2)
  have three: "xs = [xs ! 0, xs ! 1, xs ! 2]" if "length xs = 3" for xs :: "'a list"
    using that by (auto intro!: nth_equalityI simp: less_Suc_eq numeral_3_eq_3 numeral_2_eq_2)
  from engine_step_count [where cfg = ?cfg and T = ?T and h = ?h and q = ?q and n = 1
      and inp = ?inp and rnd = "\<lambda>i. 0", unfolded fl ce] q
  obtain ss r p where ss: "tfToStateSpace [Fin 1] [Fin 1, Fin 1] = Inr ss"
    and r: "runSimulation ?cfg (\<lambda>i. 0) = Inr r"
    and len: "length (sd_time r) = 2" "length (sd_reference r) = 2" "length (sd_output r) = 2"
      "length (sd_error r) = 2" "length (sd_control r) = 2"
    and ent: "\<forall>i<2. \<exists>s. sim_loop i 0 ?cfg ss (sd_time r) (\<lambda>i. 0) (init_state ss 2) = Inr s
         \<and> sd_time r ! i = rounded (Fin (real i) * Fin ?h)
         \<and> sd_reference r ! i = generateReference (sd_time r ! i) (cfg_controlType ?cfg)
              (cfg_amplitude ?cfg) (cfg_frequency ?cfg)
         \<and> sd_output r ! i = plant_output ss (st_x s) (st_control s) i
              + (Fin 0 - Fin 0.5) * Fin 2 * cfg_disturbance ?cfg
         \<and> sd_error r ! i = sd_reference r ! i - sd_output r ! i
         \<and> sd_control r ! i = fst (pid_control ?cfg i (sd_error r ! i)
              (st_integral s) (st_prevError s) (st_filteredDerivative s))"
    and p: "simulatePID ?inp = Inr p"
    and plen: "length (ps_timeHistory p) = 3" "length (ps_referenceSignalHistory p) = 3"
      "length (ps_systemOutputHistory p) = 3" "length (ps_controlSignalHistory p) = 3"
    and pent: "\<forall>i<3. ps_timeHistory p ! i = ((\<lambda>t. rounded (t + Fin ?h)) ^^ Suc i) (Fin 0)
         \<and> ps_referenceSignalHistory p ! i = in_setpoint ?inp
         \<and> ps_systemOutputHistory p ! i = ps_theta ((pid_body ?inp ^^ Suc i) pid_reset)
         \<and> ps_controlSignalHistory p ! i
             = last (ps_controlSignalHistory ((pid_body ?inp ^^ Suc i) pid_reset))"
    by (simp; blast)
  have ssv: "ss = \<lparr>ssA = [[Fin (- 1)]], ssB = [Fin 1], ssC = [Fin 1], ssD = Fin 0\<rparr>"
    using ss by (simp add: run_eval)
  have i0: "(0 :: nat) < 2" and i1: "(1 :: nat) < 2" and i2: "(2 :: nat) < 3"
    and j0: "(0 :: nat) < 3" and j1: "(1 :: nat) < 3"
    by simp_all
  note e0 = ent [rule_format, OF i0] and e1 = ent [rule_format, OF i1]
  note p0 = pent [rule_format, OF j0] and p1 = pent [rule_format, OF j1]
    and p2 = pent [rule_format, OF i2]
  have "sd_time r ! 0 = Fin 0" "sd_time r ! 1 = Fin ?h"
    using e0 e1 t1 [simplified] by (auto simp: double_round_small)
  then have time: "sd_time r = [Fin 0, Fin ?h]"
    using two [OF len(1)] by simp
  have "sd_reference r ! 0 = Fin 1" "sd_reference r ! 1 = Fin 1"
    using e0 e1 by (auto simp: generateReference_def)
  then have ref: "sd_reference r = [Fin 1, Fin 1]"
    using two [OF len(2)] by simp
  have out0: "sd_output r ! 0 = Fin 0"
    using e0 by (auto simp: ssv init_state_def plant_output_def js_index_def js_or_def
        minus_jsnum_def)
  have err0: "sd_error r ! 0 = Fin 1"
    using e0 out0 ref by (auto simp: minus_jsnum_def)
  have "ps_timeHistory p ! 0 = Fin ?h" "ps_timeHistory p ! 1 = Fin (3602879701896397 / 2 ^ 54)"
      "ps_timeHistory p ! 2 = Fin (1351079888211149 / 2 ^ 52)"
    using p0 p1 p2 t1 [simplified] t2 [simplified] t3 [simplified]
    by (simp_all add: numeral_2_eq_2)
  then have ptime: "ps_timeHistory p = [Fin ?h, Fin (3602879701896397 / 2 ^ 54),
      Fin (1351079888211149 / 2 ^ 52)]"
    using three [OF plen(1)] by simp
  have "ps_referenceSignalHistory p ! 0 = Fin 1" "ps_referenceSignalHistory p ! 1 = Fin 1"
      "ps_referenceSignalHistory p ! 2 = Fin 1"
    using p0 p1 p2 by simp_all
  then have pref: "ps_referenceSignalHistory p = [Fin 1, Fin 1, Fin 1]"
    using three [OF plen(2)] by simp
  show ?thesis
    using q fl ce r p time ref len out0 err0 ptime pref plen by simp
qed

subsection \<open>Determinism\<close>

lemma plus_Fin_0: "x + Fin 0 = x"
  by (cases x) simp_all

lemma no_disturbance: "y + (Fin r - Fin c) * Fin 2 * Fin 0 = y"
  by (simp add: minus_jsnum_def plus_Fin_0)

lemma sim_step_no_disturbance:
  "cfg_disturbance cfg = Fin 0 \<Longrightarrow> sim_step cfg ss time rnd i s = sim_step cfg ss time rnd' i s"
  by (simp add: sim_step_def no_disturbance)

lemma sim_loop_no_disturbance:
  "cfg_disturbance cfg = Fin 0 \<Longrightarrow>
   sim_loop k i cfg ss time rnd s = sim_loop k i cfg ss time rnd' s"
proof (induction k arbitrary: i s)
  case 0
  then show ?case by simp
next
  case (Suc k)
  have "sim_step cfg ss time rnd i s = sim_step cfg ss time rnd' i s"
    using Suc.prems by (rule sim_step_no_disturbance)
  then show ?case
    using Suc.IH [OF Suc.prems] by (simp split: sum.splits)
qed

text \<open>
  C9. For every configuration with disturbance amplitude 0, the result of \<open>runSimulation\<close>
  does not depend on the values drawn from \<open>Math.random\<close>: two runs with the same
  configuration return the same time, reference, output, error and control series (or
  fail in the same way). \<open>runSimulation\<close> of Pagina Profesor draws no random value at
  all; its result is a function of the configuration alone.
\<close>

theorem engine_deterministic_without_disturbance:
  assumes "cfg_disturbance cfg = Fin 0"
  shows "runSimulation cfg rnd = runSimulation cfg rnd'"
  unfolding runSimulation_def Let_def
  using sim_loop_no_disturbance [OF assms, of _ _ _ _ rnd _ rnd']
  by (simp split: sum.splits)

theorem engine_deterministic_without_disturbance_witness:
  "cfg_disturbance
     \<lparr>cfg_numerator = [Fin 1], cfg_denominator = [Fin 1, Fin 1], cfg_kp = Fin 2,
      cfg_ki = Fin 1, cfg_kd = Fin 0, cfg_simTime = Fin 2, cfg_dt = Fin 1,
      cfg_controlType = ''step'', cfg_amplitude = Fin 1, cfg_frequency = Fin 1,
      cfg_antiWindup = ''clamping'', cfg_derivativeFilter = ''firstOrder'',
      cfg_disturbance = Fin 0\<rparr> = Fin 0
   \<and> runSimulation
     \<lparr>cfg_numerator = [Fin 1], cfg_denominator = [Fin 1, Fin 1], cfg_kp = Fin 2,
      cfg_ki = Fin 1, cfg_kd = Fin 0, cfg_simTime = Fin 2, cfg_dt = Fin 1,
      cfg_controlType = ''step'', cfg_amplitude = Fin 1, cfg_frequency = Fin 1,
      cfg_antiWindup = ''clamping'', cfg_derivativeFilter = ''firstOrder'',
      cfg_disturbance = Fin 0\<rparr> (\<lambda>i. 0)
     = Inr \<lparr>sd_time = [Fin 0, Fin 1], sd_reference = [Fin 1, Fin 1],
            sd_output = [Fin 0, Fin (15 / 8)], sd_error = [Fin 1, Fin (- (7 / 8))],
            sd_control = [Fin 3, Fin (- (13 / 8))]\<rparr>
   \<and> runSimulation
     \<lparr>cfg_numerator = [Fin 1], cfg_denominator = [Fin 1, Fin 1], cfg_kp = Fin 2,
      cfg_ki = Fin 1, cfg_kd = Fin 0, cfg_simTime = Fin 2, cfg_dt = Fin 1,
      cfg_controlType = ''step'', cfg_amplitude = Fin 1, cfg_frequency = Fin 1,
      cfg_antiWindup = ''clamping'', cfg_derivativeFilter = ''firstOrder'',
      cfg_disturbance = Fin 0\<rparr> (\<lambda>i. 9 / 10)
     = Inr \<lparr>sd_time = [Fin 0, Fin 1], sd_reference = [Fin 1, Fin 1],
            sd_output = [Fin 0, Fin (15 / 8)], sd_error = [Fin 1, Fin (- (7 / 8))],
            sd_control = [Fin 3, Fin (- (13 / 8))]\<rparr>"
proof -
  let ?cfg = "\<lparr>cfg_numerator = [Fin 1], cfg_denominator = [Fin 1, Fin 1], cfg_kp = Fin 2,
      cfg_ki = Fin 1, cfg_kd = Fin 0, cfg_simTime = Fin 2, cfg_dt = Fin 1,
      cfg_controlType = ''step'', cfg_amplitude = Fin 1, cfg_frequency = Fin 1,
      cfg_antiWindup = ''clamping'', cfg_derivativeFilter = ''firstOrder'',
      cfg_disturbance = Fin 0\<rparr>"
  have d: "cfg_disturbance ?cfg = Fin 0"
    by simp
  have run: "runSimulation ?cfg (\<lambda>i. 0)
     = Inr \<lparr>sd_time = [Fin 0, Fin 1], sd_reference = [Fin 1, Fin 1],
            sd_output = [Fin 0, Fin (15 / 8)], sd_error = [Fin 1, Fin (- (7 / 8))],
            sd_control = [Fin 3, Fin (- (13 / 8))]\<rparr>"
    by (simp add: run_eval)
  show ?thesis
    using engine_deterministic_without_disturbance [OF d, of "\<lambda>i. 0" "\<lambda>i. 9 / 10"] run d
    by simp
qed

subsection \<open>Saturation bounds\<close>

text \<open>
  C10. In anti-windup mode \<open>clamping\<close> every stored control value should lie in
  \<open>[-5, 5]\<close>. With \<open>Ki = 0\<close> the first saturated step leaves the integral at
  \<open>-Infinity\<close> (the division by \<open>Ki\<close> has no guard), the next unclamped output is
  \<open>0 \<cdot> -Infinity = NaN\<close>, both comparisons of the clamp are false for NaN, and NaN is
  stored in the control series.
\<close>

theorem clamped_control_is_NaN:
  "runSimulation
     \<lparr>cfg_numerator = [Fin 1], cfg_denominator = [Fin 1, Fin 1], cfg_kp = Fin 10,
      cfg_ki = Fin 0, cfg_kd = Fin 0, cfg_simTime = Fin 2, cfg_dt = Fin 1,
      cfg_controlType = ''step'', cfg_amplitude = Fin 1, cfg_frequency = Fin 1,
      cfg_antiWindup = ''clamping'', cfg_derivativeFilter = ''none'',
      cfg_disturbance = Fin 0\<rparr> rnd
   = Inr \<lparr>sd_time = [Fin 0, Fin 1], sd_reference = [Fin 1, Fin 1],
          sd_output = [Fin 0, Fin (25 / 8)], sd_error = [Fin 1, Fin (- (17 / 8))],
          sd_control = [Fin 5, NaN]\<rparr>"
  by (simp add: run_eval)

section \<open>Properties of the MetricsAnalyzer\<close>

lemma foldl_max_Fin:
  "foldl Math_max2 (Fin a) (map Fin qs) = Fin (Max (insert a (set qs)))"
proof (induction qs arbitrary: a)
  case Nil
  then show ?case by simp
next
  case (Cons q qs)
  have "Math_max2 (Fin a) (Fin q) = Fin (max a q)"
    by (simp add: Math_max2_def max_def)
  moreover have "Max (insert (max a q) (set qs)) = Max (insert a (insert q (set qs)))"
    by (metis List.finite_set Max_insert finite.insertI insert_not_empty max.assoc set_empty2
        Max_singleton)
  ultimately show ?case
    using Cons.IH [of "max a q"] by simp
qed

lemma Math_max_Fin:
  "Math_max (map Fin qs) = (if qs = [] then NInf else Fin (Max (set qs)))"
proof (cases qs)
  case Nil
  then show ?thesis by (simp add: Math_max_def)
next
  case (Cons q qs')
  have "Math_max2 NInf (Fin q) = Fin q"
    by (simp add: Math_max2_def)
  then show ?thesis
    using Cons foldl_max_Fin [of q qs'] by (simp add: Math_max_def)
qed

lemma final_reference_Fin:
  "js_index (map Fin rs) (int (length (map Fin rs)) - 1)
   = (if rs = [] then NaN else Fin (last rs))"
  by (cases "rs = []") (auto simp: js_index_def last_conv_nth nat_diff_distrib')

lemma overshoot_core:
  fixes m f :: real
  assumes "0 < f"
  shows "(let overshoot = (Fin m - Fin f) / Fin f * Fin 100
          in if overshoot < Fin 0 then Fin 0 else overshoot)
         = (if f < m then Fin ((m - f) / f * 100) else Fin 0)"
proof -
  have val: "(Fin m - Fin f) / Fin f * Fin 100 = Fin ((m - f) / f * 100)"
    using assms by (simp add: minus_jsnum_def)
  consider "m < f" | "m = f" | "f < m"
    by (metis less_linear)
  then show ?thesis
  proof cases
    case 1
    then have "(m - f) / f < 0"
      using assms by (intro divide_neg_pos) simp_all
    then have "(m - f) / f * 100 < 0"
      by (intro mult_neg_pos) simp_all
    with 1 show ?thesis
      unfolding val Let_def by simp
  next
    case 2
    then show ?thesis
      unfolding val Let_def by simp
  next
    case 3
    then have "0 \<le> (m - f) / f"
      using assms by (intro divide_nonneg_pos) simp_all
    then have "0 \<le> (m - f) / f * 100"
      by (intro mult_nonneg_nonneg) simp_all
    then have "\<not> (m - f) / f * 100 < 0"
      by simp
    with 3 show ?thesis
      unfolding val Let_def by simp
  qed
qed

lemma overshoot_finite:
  "displayMetrics_overshoot (map Fin rs) (map Fin qs)
   = (if rs \<noteq> [] \<and> 0 < last rs \<and> qs \<noteq> [] \<and> last rs < Max (set qs)
      then Fin ((Max (set qs) - last rs) / last rs * 100) else Fin 0)"
proof -
  consider "rs = []" | "rs \<noteq> []" "\<not> 0 < last rs" | "rs \<noteq> []" "0 < last rs" "qs = []"
    | "rs \<noteq> []" "0 < last rs" "qs \<noteq> []"
    by blast
  then show ?thesis
  proof cases
    case 1
    then show ?thesis
      unfolding displayMetrics_overshoot_def Let_def final_reference_Fin by simp
  next
    case 2
    then show ?thesis
      unfolding displayMetrics_overshoot_def Let_def final_reference_Fin by simp
  next
    case 3
    then show ?thesis
      unfolding displayMetrics_overshoot_def Let_def final_reference_Fin Math_max_Fin
      by (simp add: minus_jsnum_def)
  next
    case 4
    have "displayMetrics_overshoot (map Fin rs) (map Fin qs)
          = (let overshoot = (Fin (Max (set qs)) - Fin (last rs)) / Fin (last rs) * Fin 100
             in if overshoot < Fin 0 then Fin 0 else overshoot)"
      unfolding displayMetrics_overshoot_def final_reference_Fin Math_max_Fin
      using 4 by (simp add: Let_def)
    also have "\<dots> = (if last rs < Max (set qs)
                      then Fin ((Max (set qs) - last rs) / last rs * 100) else Fin 0)"
      using 4(2) by (rule overshoot_core)
    finally show ?thesis
      using 4 by simp
  qed
qed

lemma overshoot_prof_finite:
  assumes "rs \<noteq> []" and "0 < last rs" and "qs \<noteq> []"
  shows "displayMetrics_overshoot_prof ''step'' (map Fin rs) (map Fin qs)
         = Fin ((Max (set qs) - last rs) / last rs * 100)"
  unfolding displayMetrics_overshoot_prof_def Let_def final_reference_Fin Math_max_Fin
  using assms by (simp add: minus_jsnum_def)

lemma overshoot_no_positive_reference:
  assumes "\<not> Fin 0 < js_index reference (int (length reference) - 1)"
  shows "displayMetrics_overshoot reference output = Fin 0"
    and "displayMetrics_overshoot_prof ty reference output = Fin 0"
  using assms by (simp_all add: displayMetrics_overshoot_def displayMetrics_overshoot_prof_def Let_def)

lemma reference_amplitude_zero:
  "generateReference (Fin t) ty (Fin 0) (Fin f) = Fin 0"
  "generateReference_prof (Fin t) ty (Fin 0) (Fin f) = Fin 0"
  by (simp_all add: generateReference_def generateReference_prof_def Math_min_def)

lemma final_of_zero_reference:
  assumes "\<And>t. t \<in> set ts \<Longrightarrow> g t = Fin 0"
  shows "\<not> Fin 0 < js_index (map g ts) (int (length (map g ts)) - 1)"
proof (cases "ts = []")
  case True
  then show ?thesis by (simp add: js_index_def)
next
  case False
  then have "js_index (map g ts) (int (length (map g ts)) - 1) = g (last ts)"
    by (auto simp: js_index_def last_conv_nth nat_diff_distrib')
  then show ?thesis
    using assms [of "last ts"] False by simp
qed

text \<open>
  C7 (amended). With \<open>final\<close> the last reference value and \<open>peak\<close> the maximum of the
  output, for series of finite numbers: in Pagina Corregida - copia the overshoot is
  \<open>(peak - final) / final \<cdot> 100\<close> when \<open>final > 0\<close> and \<open>peak > final\<close>, and 0 in every
  other case (\<open>final \<le> 0\<close>, a peak that does not exceed \<open>final\<close>, empty series). In
  Pagina Profesor the overshoot is 0 for every reference kind but \<open>step\<close>; for a step
  reference it is the same formula when \<open>final > 0\<close> and \<open>peak > final\<close>, and 0 when
  \<open>final \<le> 0\<close>. In both, a reference of amplitude 0 gives overshoot 0 whatever the
  output series holds.
\<close>

theorem overshoot_metric:
  "displayMetrics_overshoot (map Fin rs) (map Fin qs)
     = (if rs \<noteq> [] \<and> 0 < last rs \<and> qs \<noteq> [] \<and> last rs < Max (set qs)
        then Fin ((Max (set qs) - last rs) / last rs * 100) else Fin 0)
   \<and> displayMetrics_overshoot
        (map (\<lambda>t. generateReference (Fin t) ty (Fin 0) (Fin f)) ts) outs = Fin 0
   \<and> (ty \<noteq> ''step'' \<longrightarrow> displayMetrics_overshoot_prof ty reference outs = Fin 0)
   \<and> (rs \<noteq> [] \<and> 0 < last rs \<and> qs \<noteq> [] \<and> last rs < Max (set qs) \<longrightarrow>
        displayMetrics_overshoot_prof ''step'' (map Fin rs) (map Fin qs)
          = Fin ((Max (set qs) - last rs) / last rs * 100))
   \<and> (rs = [] \<or> last rs \<le> 0 \<longrightarrow>
        displayMetrics_overshoot_prof ty (map Fin rs) outs = Fin 0)
   \<and> displayMetrics_overshoot_prof ty
        (map (\<lambda>t. generateReference_prof (Fin t) ty (Fin 0) (Fin f)) ts) outs = Fin 0"
proof -
  have a: "displayMetrics_overshoot
        (map (\<lambda>t. generateReference (Fin t) ty (Fin 0) (Fin f)) ts) outs = Fin 0"
    by (rule overshoot_no_positive_reference(1), rule final_of_zero_reference)
      (rule reference_amplitude_zero)
  have b: "displayMetrics_overshoot_prof ty
        (map (\<lambda>t. generateReference_prof (Fin t) ty (Fin 0) (Fin f)) ts) outs = Fin 0"
    by (rule overshoot_no_positive_reference(2), rule final_of_zero_reference)
      (rule reference_amplitude_zero)
  have c: "displayMetrics_overshoot_prof ty (map Fin rs) outs = Fin 0"
    if "rs = [] \<or> last rs \<le> 0"
    by (rule overshoot_no_positive_reference(2))
      (use that in \<open>auto simp only: final_reference_Fin less_jsnum.simps split: if_splits\<close>)
  have d: "displayMetrics_overshoot_prof ty reference outs = Fin 0" if "ty \<noteq> ''step''"
    using that by (simp add: displayMetrics_overshoot_prof_def Let_def)
  show ?thesis
    using a b c d overshoot_finite [of rs qs] overshoot_prof_finite [of rs qs] by blast
qed

lemmas metric_eval = displayMetrics_overshoot_def displayMetrics_overshoot_prof_def Math_max_def
  Math_max2_def js_index_def Let_def minus_jsnum_def

theorem overshoot_metric_witness:
  "displayMetrics_overshoot [Fin 1, Fin 1] [Fin 0, Fin (3 / 2)] = Fin 50
   \<and> displayMetrics_overshoot [Fin 1, Fin 1] [Fin 0, Fin (1 / 2)] = Fin 0
   \<and> displayMetrics_overshoot_prof ''step'' [Fin 1, Fin 1] [Fin 0, Fin (3 / 2)] = Fin 50
   \<and> displayMetrics_overshoot_prof ''sine'' [Fin 0, Fin 1] [Fin 0, Fin (3 / 2)] = Fin 0
   \<and> displayMetrics_overshoot_prof ''step'' [Fin 0, Fin (- 1)] [Fin 0, Fin (3 / 2)] = Fin 0
   \<and> displayMetrics_overshoot [Fin 0, Fin 0] [NaN, Fin 7] = Fin 0"
  using overshoot_metric [where rs = "[1, 1]" and qs = "[0, 3 / 2]" and ty = "''sine''"
      and reference = "[Fin 0, Fin 1]" and outs = "[Fin 0, Fin (3 / 2)]"]
    overshoot_metric [where rs = "[1, 1]" and qs = "[0, 1 / 2]"]
    overshoot_metric [where rs = "[0, - 1]" and ty = "''step''"
      and outs = "[Fin 0, Fin (3 / 2)]"]
    overshoot_metric [where ty = "''step''" and ts = "[0, 1]" and outs = "[NaN, Fin 7]"]
  by (simp add: generateReference_def)

text \<open>
  The claim as first stated fails on Pagina Profesor: for a ramp reference ending at 1
  and a peak of 2 it reports 0, not 100; and for a step reference of 1 and a peak of 0.5
  it reports \<open>-50\<close>, where Pagina Corregida - copia replaces a negative value by 0.
  On an output series that holds NaN the overshoot is NaN, hence the restriction to finite
  numbers.
\<close>

theorem overshoot_metric_counterexample:
  "displayMetrics_overshoot_prof ''ramp'' [Fin (1 / 2), Fin 1] [Fin 0, Fin 2] = Fin 0
   \<and> Math_max [Fin 0, Fin 2] = Fin 2
   \<and> displayMetrics_overshoot_prof ''step'' [Fin 1, Fin 1] [Fin 0, Fin (1 / 2)] = Fin (- 50)
   \<and> displayMetrics_overshoot [Fin 1, Fin 1] [Fin 0, NaN] = NaN"
  by (simp add: metric_eval)

section \<open>Properties of the AutoTuner\<close>

lemma tu_of_peaks_prof_Fin:
  "tu_of_peaks_prof (map Fin ps)
   = (if 2 \<le> length ps then Fin (spec_mean_period ps) else Fin 0)"
proof (cases "2 \<le> length ps")
  case True
  have "foldl (\<lambda>totalPeriod i. totalPeriod
            + (js_index (map Fin ps) (int i + 1) - js_index (map Fin ps) (int i)))
          (Fin 0) [0 ..< length ps - 1]
        = foldl (\<lambda>totalPeriod i. totalPeriod + Fin (ps ! (i + 1) - ps ! i))
          (Fin 0) [0 ..< length ps - 1]"
    by (intro foldl_cong) (auto simp: js_index_def minus_jsnum_def nat_add_distrib)
  also have "\<dots> = Fin (\<Sum>i < length ps - 1. ps ! (i + 1) - ps ! i)"
    by (simp add: foldl_Fin_sum)
  finally show ?thesis
    using True by (simp add: tu_of_peaks_prof_def spec_mean_period_def of_nat_diff)
next
  case False
  then show ?thesis by (simp add: tu_of_peaks_prof_def)
qed

lemma tu_of_peaks_Fin:
  "tu_of_peaks (map Fin ps)
   = (if 2 \<le> length ps then Fin (ps ! (length ps - 1) - ps ! (length ps - 2)) else Fin 0)"
  by (auto simp: tu_of_peaks_def js_index_def minus_jsnum_def nat_diff_distrib')

text \<open>
  C8 (amended). Let the peak detection of \<open>findTu\<close> find the finite peak times \<open>ps\<close>.
  In Pagina Profesor, with at least two peaks \<open>tu\<close> is the mean of the differences of
  consecutive peak times, and with fewer it is 0, which the page shows as \<open>N/A\<close>. In
  Pagina Corregida - copia, with at least two peaks \<open>findTu\<close> returns the difference of
  the last two peak times, and with fewer it returns 0. In both, four peaks spaced exactly
  2.0 apart give 2.0.
\<close>

theorem ultimate_period:
  "(findTu_peaks_prof outs ts = map Fin ps \<longrightarrow>
      findTu_prof outs ts
        = (if 2 \<le> length ps then Fin (spec_mean_period ps) else Fin 0))
   \<and> (findTu_peaks outs ts = map Fin ps \<longrightarrow>
      findTu outs ts
        = (if 2 \<le> length ps then Fin (ps ! (length ps - 1) - ps ! (length ps - 2)) else Fin 0))
   \<and> (findTu_peaks_prof outs ts = map Fin [t, t + 2, t + 4, t + 6] \<longrightarrow>
      findTu_prof outs ts = Fin 2)
   \<and> (findTu_peaks outs ts = map Fin [t, t + 2, t + 4, t + 6] \<longrightarrow>
      findTu outs ts = Fin 2)"
proof -
  have "spec_mean_period [t, t + 2, t + 4, t + 6] = 2"
    by (simp add: spec_mean_period_def numeral_3_eq_3 lessThan_Suc)
  then show ?thesis
    unfolding findTu_prof_def findTu_def
    by (auto simp: tu_of_peaks_prof_Fin tu_of_peaks_Fin simp del: list.map)
qed

lemmas tu_eval = findTu_prof_def findTu_peaks_prof_def tu_of_peaks_prof_def findTu_def
  findTu_peaks_def findTu_scan_def tu_of_peaks_def js_index_def minus_jsnum_def upt_rec

theorem ultimate_period_witness:
  "findTu_peaks_prof
     [Fin 0, Fin 2, Fin 0, Fin 2, Fin 0, Fin 2, Fin 0, Fin 2, Fin 0, Fin 2,
      Fin 0, Fin 2, Fin 0, Fin 2, Fin 0, Fin 2, Fin 0, Fin 2]
     [Fin 0, Fin 1, Fin 2, Fin 3, Fin 4, Fin 5, Fin 6, Fin 7, Fin 8, Fin 9,
      Fin 10, Fin 11, Fin 12, Fin 13, Fin 14, Fin 15, Fin 16, Fin 17]
     = map Fin [9, 9 + 2, 9 + 4, 9 + 6]
   \<and> findTu_prof
     [Fin 0, Fin 2, Fin 0, Fin 2, Fin 0, Fin 2, Fin 0, Fin 2, Fin 0, Fin 2,
      Fin 0, Fin 2, Fin 0, Fin 2, Fin 0, Fin 2, Fin 0, Fin 2]
     [Fin 0, Fin 1, Fin 2, Fin 3, Fin 4, Fin 5, Fin 6, Fin 7, Fin 8, Fin 9,
      Fin 10, Fin 11, Fin 12, Fin 13, Fin 14, Fin 15, Fin 16, Fin 17]
     = Fin 2
   \<and> findTu_peaks
     [Fin 0, Fin 2, Fin 0, Fin 2, Fin 0, Fin 2, Fin 0, Fin 2, Fin 0, Fin 2]
     [Fin 0, Fin 1, Fin 2, Fin 3, Fin 4, Fin 5, Fin 6, Fin 7, Fin 8, Fin 9]
     = map Fin [2, 2 + 2, 2 + 4, 2 + 6]
   \<and> findTu
     [Fin 0, Fin 2, Fin 0, Fin 2, Fin 0, Fin 2, Fin 0, Fin 2, Fin 0, Fin 2]
     [Fin 0, Fin 1, Fin 2, Fin 3, Fin 4, Fin 5, Fin 6, Fin 7, Fin 8, Fin 9]
     = Fin 2"
proof -
  let ?o18 = "[Fin 0, Fin 2, Fin 0, Fin 2, Fin 0, Fin 2, Fin 0, Fin 2, Fin 0, Fin 2,
      Fin 0, Fin 2, Fin 0, Fin 2, Fin 0, Fin 2, Fin 0, Fin 2]"
  let ?t18 = "[Fin 0, Fin 1, Fin 2, Fin 3, Fin 4, Fin 5, Fin 6, Fin 7, Fin 8, Fin 9,
      Fin 10, Fin 11, Fin 12, Fin 13, Fin 14, Fin 15, Fin 16, Fin 17]"
  let ?o10 = "[Fin 0, Fin 2, Fin 0, Fin 2, Fin 0, Fin 2, Fin 0, Fin 2, Fin 0, Fin 2]"
  let ?t10 = "[Fin 0, Fin 1, Fin 2, Fin 3, Fin 4, Fin 5, Fin 6, Fin 7, Fin 8, Fin 9]"
  have p18: "findTu_peaks_prof ?o18 ?t18 = map Fin [9, 9 + 2, 9 + 4, 9 + 6]"
    by (simp add: findTu_peaks_prof_def js_index_def upt_rec)
  have p10: "findTu_peaks ?o10 ?t10 = map Fin [2, 2 + 2, 2 + 4, 2 + 6]"
    by (simp add: findTu_peaks_def findTu_scan_def js_index_def upt_rec)
  show ?thesis
    using ultimate_period [where outs = ?o18 and ts = ?t18 and t = 9] p18
      ultimate_period [where outs = ?o10 and ts = ?t10 and t = 2] p10
    by blast
qed

text \<open>
  The claim as first stated fails on \<open>findTu\<close> of Pagina Corregida - copia: for peaks
  at 2, 4 and 7 it returns \<open>7 - 4 = 3\<close>, and the mean of the differences is 2.5.
\<close>

theorem ultimate_period_counterexample:
  "findTu_peaks [Fin 0, Fin 1, Fin 0, Fin 1, Fin 0, Fin 0, Fin 1, Fin 0]
     [Fin 0, Fin 1, Fin 2, Fin 3, Fin 4, Fin 5, Fin 6, Fin 7] = map Fin [2, 4, 7]
   \<and> findTu [Fin 0, Fin 1, Fin 0, Fin 1, Fin 0, Fin 0, Fin 1, Fin 0]
     [Fin 0, Fin 1, Fin 2, Fin 3, Fin 4, Fin 5, Fin 6, Fin 7] = Fin 3
   \<and> spec_mean_period [2, 4, 7] = 5 / 2"
  by (simp add: tu_eval spec_mean_period_def lessThan_Suc numeral_2_eq_2)

end
